theory Spec2Isabelle
  imports Complex_Main "HOL-Library.Sublist" "HOL-Library.Word"
begin

section \<open>Python strings\<close>

text \<open>
  A Python \<^verbatim>\<open>str\<close> is modelled as a \<^typ>\<open>string\<close>: a list of characters with code
  points below 256. \<^verbatim>\<open>str.isspace\<close>, which decides what \<^verbatim>\<open>strip\<close>, \<^verbatim>\<open>rstrip\<close> and
  the regular expression class \<^verbatim>\<open>\s\<close> remove, holds in that range for exactly the twelve
  code points 9-13, 28-31, 32, 133 and 160.
\<close>

type_synonym byte = "8 word"

definition is_space :: "char \<Rightarrow> bool" where
  "is_space c =
     (c = CHR 0x09 \<or> c = CHR 0x0A \<or> c = CHR 0x0B \<or> c = CHR 0x0C \<or> c = CHR 0x0D \<or>
      c = CHR 0x1C \<or> c = CHR 0x1D \<or> c = CHR 0x1E \<or> c = CHR 0x1F \<or> c = CHR 0x20 \<or>
      c = CHR 0x85 \<or> c = CHR 0xA0)"

definition py_lstrip :: "string \<Rightarrow> string" where
  "py_lstrip s = dropWhile is_space s"

definition py_rstrip :: "string \<Rightarrow> string" where
  "py_rstrip s = rev (dropWhile is_space (rev s))"

definition py_strip :: "string \<Rightarrow> string" where
  "py_strip s = py_lstrip (py_rstrip s)"

text \<open>\<^verbatim>\<open>sep.join(parts)\<close>.\<close>

fun py_join :: "string \<Rightarrow> string list \<Rightarrow> string" where
  "py_join sep [] = []"
| "py_join sep [x] = x"
| "py_join sep (x # y # ys) = x @ sep @ py_join sep (y # ys)"

text \<open>\<^verbatim>\<open>s.split(c)\<close> for a separator of one character: never empty, one more piece than
  there are separators.\<close>

fun py_split :: "char \<Rightarrow> string \<Rightarrow> string list" where
  "py_split c [] = [[]]"
| "py_split c (x # xs) =
     (if x = c then [] # py_split c xs
      else (case py_split c xs of [] \<Rightarrow> [[x]] | l # ls \<Rightarrow> (x # l) # ls))"

text \<open>\<^verbatim>\<open>s.replace(old, new)\<close>: the occurrences of \<^verbatim>\<open>old\<close> are replaced from left to
  right without overlap; an empty \<^verbatim>\<open>old\<close> matches before every character and at the end.\<close>

fun py_replace :: "string \<Rightarrow> string \<Rightarrow> string \<Rightarrow> string" where
  "py_replace old new [] = (if old = [] then new else [])"
| "py_replace old new (c # cs) =
     (if old = [] then new @ concat (map (\<lambda>x. x # new) (c # cs))
      else if take (length old) (c # cs) = old
        then new @ py_replace old new (drop (length old) (c # cs))
      else c # py_replace old new cs)"

definition startswith :: "string \<Rightarrow> string \<Rightarrow> bool" where
  "startswith s p = (take (length p) s = p)"

section \<open>Word adapter: inline runs\<close>

text \<open>
  A run of python-docx as \<^verbatim>\<open>_process_paragraph\<close> reads it: its text, the truth values of
  \<^verbatim>\<open>run.bold\<close>, \<^verbatim>\<open>run.italic\<close>, \<^verbatim>\<open>run.underline\<close> and \<^verbatim>\<open>run.font.strike\<close> (a flag that is
  \<^verbatim>\<open>None\<close> or \<^verbatim>\<open>False\<close> is falsy), and the \<^verbatim>\<open>r:embed\<close> attribute of each \<^verbatim>\<open>a:blip\<close>
  element below it, in document order.
\<close>

record run =
  run_text :: string
  run_bold :: bool
  run_italic :: bool
  run_underline :: bool
  run_strike :: bool
  run_blips :: "string option list"

text \<open>
  The body of the first loop of \<^verbatim>\<open>_process_paragraph\<close> (converter.py, lines 312-327): a
  run with empty text is skipped (\<^verbatim>\<open>continue\<close>, here \<open>None\<close>); otherwise the markers are
  wrapped around the text one after the other, each around the result of the one before.
\<close>

definition render_run :: "run \<Rightarrow> string option" where
  "render_run r =
     (if run_text r = [] then None
      else
        let t0 = run_text r;
            t1 = (if run_bold r then ''**'' @ t0 @ ''**'' else t0);
            t2 = (if run_italic r then ''*'' @ t1 @ ''*'' else t1);
            t3 = (if run_underline r then ''<u>'' @ t2 @ ''</u>'' else t2);
            t4 = (if run_strike r then ''~~'' @ t3 @ ''~~'' else t3)
        in Some t4)"

section \<open>Word adapter: heading level and paragraph assembly\<close>

text \<open>
  \<^verbatim>\<open>int(s)\<close> on a string: surrounding whitespace is ignored, one sign is allowed, then
  decimal digits, where single underscores may stand between digits. Anything else
  raises \<^verbatim>\<open>ValueError\<close>, here \<open>None\<close>.
\<close>

definition is_digit :: "char \<Rightarrow> bool" where
  "is_digit c = (48 \<le> (of_char c :: nat) \<and> (of_char c :: nat) \<le> 57)"

definition digit_val :: "char \<Rightarrow> nat" where
  "digit_val c = of_char c - 48"

fun valid_digits :: "string \<Rightarrow> bool" where
  "valid_digits [] = False"
| "valid_digits [c] = is_digit c"
| "valid_digits (c # d # r) =
     (is_digit c \<and> (if d = CHR ''_'' then valid_digits r else valid_digits (d # r)))"

definition digits_value :: "string \<Rightarrow> nat" where
  "digits_value s = foldl (\<lambda>a c. if c = CHR ''_'' then a else 10 * a + digit_val c) 0 s"

definition py_int :: "string \<Rightarrow> int option" where
  "py_int s =
     (let t = py_strip s;
          neg = (t \<noteq> [] \<and> hd t = CHR ''-'');
          d = (if t \<noteq> [] \<and> (hd t = CHR ''-'' \<or> hd t = CHR ''+'') then tl t else t)
      in if valid_digits d
         then Some (if neg then - int (digits_value d) else int (digits_value d))
         else None)"

text \<open>
  Lines 300-308 of converter.py: the level is read from the style name only when it starts
  with \<^verbatim>\<open>Heading\<close>; every occurrence of that word is removed, the rest is stripped and
  parsed, and a \<^verbatim>\<open>ValueError\<close> gives level 0. Nothing bounds the parsed number.
\<close>

definition heading_level :: "string \<Rightarrow> int" where
  "heading_level style_name =
     (if startswith style_name ''Heading''
      then (case py_int (py_strip (py_replace ''Heading'' [] style_name)) of
              Some n \<Rightarrow> n
            | None \<Rightarrow> 0)
      else 0)"

text \<open>Lines 373-375: \<^verbatim>\<open>'#' * heading_level\<close>, a space, the text, when the level is positive.\<close>

definition apply_heading :: "int \<Rightarrow> string \<Rightarrow> string" where
  "apply_heading lvl full_text =
     (if lvl > 0 then replicate (nat lvl) (CHR ''#'') @ '' '' @ full_text else full_text)"

text \<open>
  Lines 377-384: a paragraph with a \<^verbatim>\<open>w:numPr\<close> element is a list item; its level is the
  value of \<^verbatim>\<open>w:ilvl\<close> (0 without that element), and \<^verbatim>\<open>"  " * level\<close> is empty for a
  negative level. \<open>None\<close> is a paragraph without \<^verbatim>\<open>w:numPr\<close>.
\<close>

definition apply_list :: "int option option \<Rightarrow> string \<Rightarrow> string" where
  "apply_list numPr full_text =
     (case numPr of
        None \<Rightarrow> full_text
      | Some ilvl \<Rightarrow>
          (let level = (case ilvl of None \<Rightarrow> 0 | Some v \<Rightarrow> v)
           in concat (replicate (nat level) ''  '') @ ''- '' @ full_text))"

text \<open>Decimal digits of a number, and the format \<^verbatim>\<open>{n:03d}\<close>.\<close>

fun dec :: "nat \<Rightarrow> string" where
  "dec n = (if n < 10 then [''0123456789'' ! n]
            else dec (n div 10) @ [''0123456789'' ! (n mod 10)])"

declare dec.simps [simp del]

definition pad3 :: "nat \<Rightarrow> string" where
  "pad3 n = replicate (3 - length (dec n)) (CHR ''0'') @ dec n"

section \<open>Spreadsheet adapter: rows and the table builder\<close>

text \<open>
  A cell value as openpyxl hands it over with \<^verbatim>\<open>values_only=True\<close>: \<open>None\<close> for an empty
  cell, otherwise \<open>Some s\<close> where \<open>s\<close> is \<^verbatim>\<open>str(cell)\<close>. A row is a tuple of cells.
\<close>

type_synonym cell = "string option"

text \<open>Line 82 of excel_converter.py:
  \<^verbatim>\<open>any(cell is not None and str(cell).strip() for cell in row)\<close>.\<close>

definition row_kept :: "cell list \<Rightarrow> bool" where
  "row_kept row =
     list_ex (\<lambda>cell. case cell of None \<Rightarrow> False | Some s \<Rightarrow> py_strip s \<noteq> []) row"

text \<open>Lines 79-83: the rows of a sheet that reach the table builder.\<close>

definition sheet_data :: "cell list list \<Rightarrow> cell list list" where
  "sheet_data rows = filter row_kept rows"

text \<open>Line 151, \<^verbatim>\<open>max(len(row) for row in data)\<close>, evaluated only for non-empty data.\<close>

definition max_cols :: "cell list list \<Rightarrow> nat" where
  "max_cols data = Max (set (map length data))"

text \<open>Lines 154-157.\<close>

definition normalize_rows :: "cell list list \<Rightarrow> cell list list" where
  "normalize_rows data =
     map (\<lambda>row. row @ replicate (max_cols data - length row) None) data"

text \<open>Lines 165-167: the text of a cell, pipes escaped with a backslash, newlines replaced
  by spaces.\<close>

definition cell_text :: "cell \<Rightarrow> string" where
  "cell_text cell =
     py_replace ''\<newline>'' '' ''
       (py_replace ''|'' [CHR 0x5C, CHR ''|''] (case cell of None \<Rightarrow> [] | Some s \<Rightarrow> s))"

definition render_row :: "string list \<Rightarrow> string" where
  "render_row cells = ''| '' @ py_join '' | '' cells @ '' |''"

text \<open>Lines 161-175: the loop over \<^verbatim>\<open>enumerate(normalized_data)\<close>; \<open>i\<close> is the index of the
  first row of the list.\<close>

fun table_rows :: "nat \<Rightarrow> cell list list \<Rightarrow> string list" where
  "table_rows i [] = []"
| "table_rows i (row # rest) =
     (let cells = map cell_text row
      in (if i = 0
          then [render_row cells, render_row (replicate (length cells) ''---'')]
          else [render_row cells]) @ table_rows (i + 1) rest)"

definition create_markdown_table :: "cell list list \<Rightarrow> string" where
  "create_markdown_table data =
     (if data = [] then []
      else py_join ''\<newline>'' (table_rows 0 (normalize_rows data)) @ ''\<newline>'')"

text \<open>
  Reading a rendered row back: a pipe that does not follow a backslash delimits cells, so a
  row of \<open>n \<ge> 1\<close> cells holds \<open>n + 1\<close> such pipes. \<open>esc\<close> says whether the character before
  was a backslash.
\<close>

fun unescaped_pipes :: "bool \<Rightarrow> string \<Rightarrow> nat" where
  "unescaped_pipes esc [] = 0"
| "unescaped_pipes esc (c # cs) =
     (if c = CHR ''|'' \<and> \<not> esc then 1 else 0) + unescaped_pipes (c = CHR 0x5C) cs"

definition columns :: "string \<Rightarrow> nat" where
  "columns line = unescaped_pipes False line - 1"


section \<open>Python floats\<close>

text \<open>
  The optimizer computes with Python floats, IEEE 754 doubles. A non-negative finite
  double is a natural number times a power of two, and is modelled as that pair
  \<open>(m, e)\<close>, standing for \<open>m * 2 ^ e\<close>. Each operation below gives the exact result
  rounded to a significand of 53 bits, ties to even, as the hardware does; the exponent
  is not bounded, so the model is the program as long as no result leaves the range of
  normal doubles (sizes and bounds below \<open>2 ^ 1000\<close> are far inside it).
\<close>

type_synonym pyfloat = "nat \<times> int"

definition float_val :: "pyfloat \<Rightarrow> rat" where
  "float_val x =
     (if 0 \<le> snd x then of_nat (fst x) * 2 ^ nat (snd x)
      else of_nat (fst x) / 2 ^ nat (- snd x))"

text \<open>The number of binary digits of a natural number.\<close>

fun bit_length :: "nat \<Rightarrow> nat" where
  "bit_length n = (if n = 0 then 0 else Suc (bit_length (n div 2)))"

declare bit_length.simps [simp del]

text \<open>The integer nearest to \<open>num / den\<close>, the even one of the two when it lies halfway.\<close>

definition round_half_even :: "nat \<Rightarrow> nat \<Rightarrow> nat" where
  "round_half_even num den =
     (let q = num div den; r = num mod den
      in if 2 * r < den then q
         else if den < 2 * r then q + 1
         else if even q then q else q + 1)"

text \<open>Rounding an exact product \<open>m * 2 ^ e\<close> to 53 bits.\<close>

definition round_mant :: "pyfloat \<Rightarrow> pyfloat" where
  "round_mant x =
     (if fst x < 2 ^ 53 then x
      else let s = bit_length (fst x) - 53
           in (round_half_even (fst x) (2 ^ s), snd x + int s))"

text \<open>\<^verbatim>\<open>float(n)\<close> for an integer \<open>n \<ge> 0\<close>, as \<^verbatim>\<open>int * float\<close> converts its left operand.\<close>

definition float_of_nat :: "nat \<Rightarrow> pyfloat" where
  "float_of_nat n = round_mant (n, 0)"

text \<open>
  \<^verbatim>\<open>a / b\<close> for integers \<open>a \<ge> 0\<close> and \<open>b > 0\<close>: Python rounds the exact quotient once. The
  quotient is scaled by the power of two \<open>k\<close> that brings it into \<open>[2 ^ 52, 2 ^ 53)\<close>,
  rounded there to an integer, and scaled back. Division by zero is raised by the callers.
\<close>

definition scaled_quotient :: "nat \<Rightarrow> nat \<Rightarrow> int \<Rightarrow> nat \<times> nat" where
  "scaled_quotient a b k = (if 0 \<le> k then (a * 2 ^ nat k, b) else (a, b * 2 ^ nat (- k)))"

definition true_div :: "nat \<Rightarrow> nat \<Rightarrow> pyfloat" where
  "true_div a b =
     (if a = 0 then (0, 0)
      else
        let k0 = 53 - (int (bit_length a) - int (bit_length b));
            k = (if 2 ^ 53 * snd (scaled_quotient a b k0) \<le> fst (scaled_quotient a b k0)
                 then k0 - 1 else k0)
        in (round_half_even (fst (scaled_quotient a b k)) (snd (scaled_quotient a b k)), - k))"

definition float_mul :: "pyfloat \<Rightarrow> pyfloat \<Rightarrow> pyfloat" where
  "float_mul x y = round_mant (fst x * fst y, snd x + snd y)"

text \<open>\<^verbatim>\<open>x < y\<close>, decided on the two significands brought to the smaller exponent.\<close>

definition float_less :: "pyfloat \<Rightarrow> pyfloat \<Rightarrow> bool" where
  "float_less x y =
     (let e = min (snd x) (snd y)
      in fst x * 2 ^ nat (snd x - e) < fst y * 2 ^ nat (snd y - e))"

text \<open>\<^verbatim>\<open>min(x, y)\<close>: the second argument only when it is smaller.\<close>

definition float_min :: "pyfloat \<Rightarrow> pyfloat \<Rightarrow> pyfloat" where
  "float_min x y = (if float_less y x then y else x)"

text \<open>\<^verbatim>\<open>int(x)\<close> for \<open>x \<ge> 0\<close>: the fraction is cut off.\<close>

definition int_of_float :: "pyfloat \<Rightarrow> nat" where
  "int_of_float x =
     (if 0 \<le> snd x then fst x * 2 ^ nat (snd x) else fst x div 2 ^ nat (- snd x))"

section \<open>Image optimizer\<close>

text \<open>
  A decoded image as the optimizer sees it: the mode, the size and the pixels row by row.
  The type of a pixel is left open. The operations of the imaging library that the
  optimizer calls are parameters: the conversion of one pixel from a mode to a mode
  (\<^verbatim>\<open>Image.convert\<close> works pixel by pixel for the modes converted to here), the pixel a
  white background shows after an RGBA pixel is pasted with its alpha as mask, the
  resampling \<^verbatim>\<open>Image.resize\<close>, which may raise, and the encoders behind \<^verbatim>\<open>Image.save\<close>,
  whose own failures are outside this model.
\<close>

record 'p image =
  im_mode :: string
  im_width :: nat
  im_height :: nat
  im_pixels :: "'p list"

datatype error = ZeroDivisionError | ValueError string | LibraryError string

datatype save_format = WEBP nat | PNG | JPEG nat

record 'p pil =
  px_convert :: "string \<Rightarrow> string \<Rightarrow> 'p \<Rightarrow> 'p"
  px_flatten :: "'p \<Rightarrow> 'p"
  pil_resize :: "nat \<times> nat \<Rightarrow> 'p image \<Rightarrow> error + 'p image"
  pil_save :: "save_format \<Rightarrow> 'p image \<Rightarrow> byte list"

definition convert :: "'p pil \<Rightarrow> string \<Rightarrow> 'p image \<Rightarrow> 'p image" where
  "convert P mode img =
     img\<lparr>im_mode := mode, im_pixels := map (px_convert P (im_mode img) mode) (im_pixels img)\<rparr>"

text \<open>
  \<^verbatim>\<open>Image.getcolors(maxcolors)\<close>: the colours used with their counts, or \<^verbatim>\<open>None\<close> when the
  image uses more than \<open>maxcolors\<close> colours.
\<close>

definition getcolors :: "nat \<Rightarrow> 'p image \<Rightarrow> (nat \<times> 'p) list option" where
  "getcolors maxcolors img =
     (let cs = remdups (im_pixels img)
      in if maxcolors < length cs then None
         else Some (map (\<lambda>c. (count_list (im_pixels img) c, c)) cs))"

text \<open>The configuration of \<^verbatim>\<open>ImageOptimizer.__init__\<close>, and its defaults.\<close>

record optimizer =
  max_width :: nat
  max_height :: nat
  jpeg_quality :: nat
  webp_quality :: nat
  prefer_webp :: bool
  size_threshold_kb :: nat

definition default_optimizer :: optimizer where
  "default_optimizer =
     \<lparr>max_width = 1920, max_height = 1080, jpeg_quality = 85, webp_quality = 80,
      prefer_webp = True, size_threshold_kb = 100\<rparr>"

text \<open>
  \<^verbatim>\<open>_resize_if_needed\<close>, lines 83-91: the size handed to \<^verbatim>\<open>image.resize\<close>, \<open>None\<close> when the
  image is returned as it is. \<^verbatim>\<open>self.max_width / width\<close> is evaluated before
  \<^verbatim>\<open>self.max_height / height\<close>, and either raises on a zero divisor.
\<close>

definition resize_target :: "optimizer \<Rightarrow> nat \<times> nat \<Rightarrow> error + (nat \<times> nat) option" where
  "resize_target cfg dims =
     (let width = fst dims; height = snd dims
      in if width \<le> max_width cfg \<and> height \<le> max_height cfg then Inr None
         else if width = 0 \<or> height = 0 then Inl ZeroDivisionError
         else
           let ratio = float_min (true_div (max_width cfg) width)
                                 (true_div (max_height cfg) height);
               new_width = int_of_float (float_mul (float_of_nat width) ratio);
               new_height = int_of_float (float_mul (float_of_nat height) ratio)
           in Inr (Some (new_width, new_height)))"

definition resize_if_needed :: "'p pil \<Rightarrow> optimizer \<Rightarrow> 'p image \<Rightarrow> error + 'p image" where
  "resize_if_needed P cfg img =
     (case resize_target cfg (im_width img, im_height img) of
        Inl e \<Rightarrow> Inl e
      | Inr None \<Rightarrow> Inr img
      | Inr (Some new_size) \<Rightarrow> pil_resize P new_size img)"

text \<open>
  \<^verbatim>\<open>_is_photo_like\<close>, lines 129-148. \<^verbatim>\<open>unique_ratio\<close> is the float quotient when the sample
  size is positive and the integer 0 otherwise; \<^verbatim>\<open>0.3\<close> is the double nearest to 3/10.
\<close>

definition is_photo_like :: "'p pil \<Rightarrow> 'p image \<Rightarrow> bool" where
  "is_photo_like P img =
     (let test_image = (if im_mode img \<noteq> ''RGB'' then convert P ''RGB'' img else img);
          sample_size = min 100 (im_width test_image) * min 100 (im_height test_image)
      in case getcolors 1000 test_image of
           None \<Rightarrow> True
         | Some colors \<Rightarrow>
             if 0 < sample_size
             then float_less (true_div 3 10) (true_div (length colors) sample_size)
             else False)"

text \<open>\<^verbatim>\<open>_choose_format\<close>, lines 106-121.\<close>

definition choose_format :: "'p pil \<Rightarrow> optimizer \<Rightarrow> 'p image \<Rightarrow> bool \<Rightarrow> string" where
  "choose_format P cfg img has_transparency =
     (let is_photo = is_photo_like P img
      in if has_transparency then (if prefer_webp cfg then ''webp'' else ''png'')
         else if is_photo then (if prefer_webp cfg then ''webp'' else ''jpg'')
         else if prefer_webp cfg then ''webp''
         else ''png'')"

text \<open>\<^verbatim>\<open>_save_as_webp\<close> (lossy, method 4), \<^verbatim>\<open>_save_as_png\<close> (optimize, compression level 6)
  and \<^verbatim>\<open>_save_as_jpeg\<close> (optimize, progressive), lines 150-220.\<close>

definition save_as_webp :: "'p pil \<Rightarrow> optimizer \<Rightarrow> 'p image \<Rightarrow> bool \<Rightarrow> byte list \<times> string" where
  "save_as_webp P cfg img has_transparency =
     (let img' = (if has_transparency
                  then (if im_mode img \<noteq> ''RGBA'' then convert P ''RGBA'' img else img)
                  else (if im_mode img = ''RGBA'' then convert P ''RGB'' img else img))
      in (pil_save P (WEBP (webp_quality cfg)) img', ''.webp''))"

definition save_as_png :: "'p pil \<Rightarrow> 'p image \<Rightarrow> byte list \<times> string" where
  "save_as_png P img = (pil_save P PNG img, ''.png'')"

definition save_as_jpeg :: "'p pil \<Rightarrow> optimizer \<Rightarrow> 'p image \<Rightarrow> bool \<Rightarrow> byte list \<times> string" where
  "save_as_jpeg P cfg img has_transparency =
     (let img' =
        (if im_mode img = ''RGBA''
           then img\<lparr>im_mode := ''RGB'', im_pixels := map (px_flatten P) (im_pixels img)\<rparr>
         else if im_mode img = ''LA''
           then img\<lparr>im_mode := ''RGB'',
                    im_pixels := map (px_convert P ''LA'' ''RGB'') (im_pixels img)\<rparr>
         else if im_mode img \<noteq> ''RGB'' then convert P ''RGB'' img
         else img)
      in (pil_save P (JPEG (jpeg_quality cfg)) img', ''.jpg''))"

text \<open>\<^verbatim>\<open>str.lower\<close> on code points below 256.\<close>

definition lower_char :: "char \<Rightarrow> char" where
  "lower_char c =
     (case map_of (zip (''ABCDEFGHIJKLMNOPQRSTUVWXYZ'' @
                        [CHR 0xC0, CHR 0xC1, CHR 0xC2, CHR 0xC3, CHR 0xC4, CHR 0xC5, CHR 0xC6,
                         CHR 0xC7, CHR 0xC8, CHR 0xC9, CHR 0xCA, CHR 0xCB, CHR 0xCC, CHR 0xCD,
                         CHR 0xCE, CHR 0xCF, CHR 0xD0, CHR 0xD1, CHR 0xD2, CHR 0xD3, CHR 0xD4,
                         CHR 0xD5, CHR 0xD6, CHR 0xD8, CHR 0xD9, CHR 0xDA, CHR 0xDB, CHR 0xDC,
                         CHR 0xDD, CHR 0xDE])
                       (''abcdefghijklmnopqrstuvwxyz'' @
                        [CHR 0xE0, CHR 0xE1, CHR 0xE2, CHR 0xE3, CHR 0xE4, CHR 0xE5, CHR 0xE6,
                         CHR 0xE7, CHR 0xE8, CHR 0xE9, CHR 0xEA, CHR 0xEB, CHR 0xEC, CHR 0xED,
                         CHR 0xEE, CHR 0xEF, CHR 0xF0, CHR 0xF1, CHR 0xF2, CHR 0xF3, CHR 0xF4,
                         CHR 0xF5, CHR 0xF6, CHR 0xF8, CHR 0xF9, CHR 0xFA, CHR 0xFB, CHR 0xFC,
                         CHR 0xFD, CHR 0xFE])) c of
        Some d \<Rightarrow> d
      | None \<Rightarrow> c)"

definition py_lower :: "string \<Rightarrow> string" where
  "py_lower s = map lower_char s"

text \<open>
  \<^verbatim>\<open>optimize_image\<close>, lines 58-79. \<^verbatim>\<open>force_format\<close> is \<^verbatim>\<open>Optional[str]\<close>; \<^verbatim>\<open>None\<close> and the
  empty string are falsy and leave the choice to \<^verbatim>\<open>_choose_format\<close>. The name hint is
  not used by the code.
\<close>

definition optimize_image ::
  "'p pil \<Rightarrow> optimizer \<Rightarrow> 'p image \<Rightarrow> string option \<Rightarrow> error + (byte list \<times> string)" where
  "optimize_image P cfg img force_format =
     (let original_mode = im_mode img;
          has_transparency = (original_mode = ''RGBA'' \<or> original_mode = ''LA''
                                \<or> original_mode = ''P'')
      in case resize_if_needed P cfg img of
           Inl e \<Rightarrow> Inl e
         | Inr img' \<Rightarrow>
             let output_format =
                   (case force_format of
                      None \<Rightarrow> choose_format P cfg img' has_transparency
                    | Some f \<Rightarrow> if f \<noteq> [] then py_lower f
                                else choose_format P cfg img' has_transparency)
             in if output_format = ''webp'' then Inr (save_as_webp P cfg img' has_transparency)
                else if output_format = ''png'' then Inr (save_as_png P img')
                else Inr (save_as_jpeg P cfg img' has_transparency))"

section \<open>Files and tables shared by the adapters\<close>

text \<open>
  What the adapters need from the outside: whether writing a file raises (\<open>Some\<close> the
  message of the exception) and the text of \<^verbatim>\<open>base64.b64encode(data).decode()\<close>. A path
  below a directory is the directory, a slash and the name.
\<close>

record env =
  fs_write_error :: "string \<Rightarrow> string option"
  b64encode :: "byte list \<Rightarrow> string"

definition path_join :: "string \<Rightarrow> string \<Rightarrow> string" where
  "path_join dir name = dir @ ''/'' @ name"

definition file_or_both :: "string \<Rightarrow> bool" where
  "file_or_both image_format = (image_format = ''file'' \<or> image_format = ''both'')"

definition base64_or_both :: "string \<Rightarrow> bool" where
  "base64_or_both image_format = (image_format = ''base64'' \<or> image_format = ''both'')"

text \<open>\<^verbatim>\<open>str(e)\<close> of an exception.\<close>

fun error_text :: "error \<Rightarrow> string" where
  "error_text ZeroDivisionError = ''division by zero''"
| "error_text (ValueError msg) = msg"
| "error_text (LibraryError msg) = msg"

text \<open>
  A table of the Word and of the presentation object model: the text of every cell, row by
  row. Both adapters strip the cell text, replace newlines by spaces and escape pipes, and
  put the separator after the first row (\<^verbatim>\<open>_process_table\<close>, \<^verbatim>\<open>_extract_table\<close>).
\<close>

definition table_cell_text :: "string \<Rightarrow> string" where
  "table_cell_text t =
     py_replace ''|'' [CHR 0x5C, CHR ''|''] (py_replace ''\<newline>'' '' '' (py_strip t))"

fun table_md_rows :: "nat \<Rightarrow> string list list \<Rightarrow> string list" where
  "table_md_rows i [] = []"
| "table_md_rows i (row # rest) =
     (let cells = map table_cell_text row
      in (if i = 0
          then [render_row cells, render_row (replicate (length cells) ''---'')]
          else [render_row cells]) @ table_md_rows (i + 1) rest)"

section \<open>Word adapter: paragraphs, images and the document\<close>

record image_part =
  part_blob :: "byte list"
  part_content_type :: string

text \<open>
  A paragraph: the name of its style (\<open>None\<close> without a style), its runs, and its
  \<^verbatim>\<open>w:numPr\<close> as \<open>apply_list\<close> reads it.
\<close>

record word_paragraph =
  para_style :: "string option"
  para_runs :: "run list"
  para_numPr :: "int option option"

text \<open>Lines 344-350: \<^verbatim>\<open>ext_map.get(content_type, ".png")\<close>.\<close>

definition docx_ext :: "string \<Rightarrow> string" where
  "docx_ext content_type =
     (if content_type = ''image/png'' then ''.png''
      else if content_type = ''image/jpeg'' then ''.jpg''
      else if content_type = ''image/gif'' then ''.gif''
      else if content_type = ''image/bmp'' then ''.bmp''
      else ''.png'')"

text \<open>
  The body of the loop over the \<^verbatim>\<open>a:blip\<close> elements, lines 335-366, on the state
  \<open>(image_counter, images, text_parts)\<close>. An \<^verbatim>\<open>r:embed\<close> that is missing or empty, or
  that names no related part, changes nothing. An exception while the file is written is
  caught by \<^verbatim>\<open>except Exception: pass\<close>: the counter stays incremented, and neither the
  list of images nor the text gets an entry.
\<close>

definition process_blip ::
  "env \<Rightarrow> (string \<rightharpoonup> image_part) \<Rightarrow> string \<Rightarrow> string \<Rightarrow>
   nat \<times> string list \<times> string list \<Rightarrow> string option \<Rightarrow> nat \<times> string list \<times> string list" where
  "process_blip E related_parts image_format images_dir st embed_attr =
     (case st of (image_counter, images, text_parts) \<Rightarrow>
        (case embed_attr of
           None \<Rightarrow> st
         | Some embed_id \<Rightarrow>
             if embed_id = [] then st
             else
               (case related_parts embed_id of
                  None \<Rightarrow> st
                | Some image_part \<Rightarrow>
                    let counter' = image_counter + 1;
                        content_type = part_content_type image_part;
                        img_name = ''image_'' @ pad3 counter' @ docx_ext content_type;
                        img_path = path_join images_dir img_name;
                        file_ref = ''\<newline>![image](images/'' @ img_name @ '')\<newline>'';
                        data_ref = ''\<newline>![image](data:'' @ content_type @ '';base64,'' @
                                   b64encode E (part_blob image_part) @ '')\<newline>''
                    in if file_or_both image_format
                       then (case fs_write_error E img_path of
                               Some msg \<Rightarrow> (counter', images, text_parts)
                             | None \<Rightarrow> (counter', images @ [img_path], text_parts @ [file_ref]))
                       else if image_format = ''base64''
                         then (counter', images, text_parts @ [data_ref])
                       else (counter', images, text_parts @ [file_ref]))))"

text \<open>\<^verbatim>\<open>_process_paragraph\<close>: the markdown of the paragraph and the images written for it.\<close>

definition process_paragraph ::
  "env \<Rightarrow> (string \<rightharpoonup> image_part) \<Rightarrow> bool \<Rightarrow> string \<Rightarrow> string \<Rightarrow> nat \<Rightarrow> word_paragraph \<Rightarrow>
   string \<times> string list" where
  "process_paragraph E related_parts extract_images image_format images_dir image_counter para =
     (let style_name = (case para_style para of None \<Rightarrow> [] | Some n \<Rightarrow> n);
          lvl = heading_level style_name;
          run_parts = List.map_filter render_run (para_runs para);
          st = (if extract_images
                then foldl (process_blip E related_parts image_format images_dir)
                       (image_counter, [], run_parts) (concat (map run_blips (para_runs para)))
                else (image_counter, [], run_parts));
          images = fst (snd st);
          full_text = py_strip (concat (snd (snd st)))
      in if full_text = [] then ([], images)
         else (apply_list (para_numPr para) (apply_heading lvl full_text), images))"

text \<open>\<^verbatim>\<open>_process_table\<close>, lines 388-409.\<close>

definition process_table :: "string list list \<Rightarrow> string" where
  "process_table rows =
     (if rows = [] then [] else py_join ''\<newline>'' (table_md_rows 0 rows))"

text \<open>
  The clean-up \<^verbatim>\<open>_clean_markdown\<close>, lines 418-433. Its three substitutions by regular
  expression are written as scans from left to right, as \<^verbatim>\<open>re.sub\<close> replaces the leftmost
  matches without overlap.

  \<open>ws_through_newline\<close> is the length of the match of \<^verbatim>\<open>\s*\n\<close> (and of \<^verbatim>\<open>\s*\n+\<close>) at
  the start of a string: the greedy \<^verbatim>\<open>\s*\<close> gives back characters until a newline follows,
  so the match ends with the last newline of the leading whitespace; \<open>None\<close> when that
  whitespace holds no newline.
\<close>

definition ws_through_newline :: "string \<Rightarrow> nat option" where
  "ws_through_newline s =
     (let w = takeWhile is_space s
      in if CHR ''\<newline>'' \<in> set w
         then Some (length w - length (takeWhile (\<lambda>c. c \<noteq> CHR ''\<newline>'') (rev w)))
         else None)"

text \<open>\<^verbatim>\<open>re.sub(r"\n{3,}", "\n\n", markdown)\<close>.\<close>

fun collapse_newlines :: "string \<Rightarrow> string" where
  "collapse_newlines [] = []"
| "collapse_newlines (c # cs) =
     (if c = CHR ''\<newline>''
      then (let more = takeWhile (\<lambda>x. x = CHR ''\<newline>'') cs
            in (if 3 \<le> 1 + length more then ''\<newline>\<newline>'' else c # more)
               @ collapse_newlines (drop (length more) cs))
      else c # collapse_newlines cs)"

text \<open>\<^verbatim>\<open>re.sub(r"(#{1,6})\s*\n+", r"\1 ", markdown)\<close>: a match starts at a \<^verbatim>\<open>#\<close> from which
  at most six of them run up to whitespace that holds a newline.\<close>

fun fix_headers :: "string \<Rightarrow> string" where
  "fix_headers [] = []"
| "fix_headers (c # cs) =
     (if c = CHR ''#''
      then (let more = takeWhile (\<lambda>x. x = CHR ''#'') cs
            in if 1 + length more \<le> 6
               then (case ws_through_newline (drop (length more) cs) of
                       Some n \<Rightarrow> (c # more) @ '' '' @ fix_headers (drop (length more + n) cs)
                     | None \<Rightarrow> c # fix_headers cs)
               else c # fix_headers cs)
      else c # fix_headers cs)"

text \<open>\<^verbatim>\<open>re.sub(r"\n\s*-\s*\n", "\n", markdown)\<close>.\<close>

fun clean_list :: "string \<Rightarrow> string" where
  "clean_list [] = []"
| "clean_list (c # cs) =
     (if c = CHR ''\<newline>''
      then (let w1 = takeWhile is_space cs
            in if take 1 (drop (length w1) cs) = ''-''
               then (case ws_through_newline (drop (length w1 + 1) cs) of
                       Some n \<Rightarrow> ''\<newline>'' @ clean_list (drop (length w1 + 1 + n) cs)
                     | None \<Rightarrow> c # clean_list cs)
               else c # clean_list cs)
      else c # clean_list cs)"

definition clean_markdown :: "string \<Rightarrow> string" where
  "clean_markdown markdown =
     (let m1 = collapse_newlines markdown;
          m2 = fix_headers m1;
          m3 = clean_list m2;
          lines = map py_rstrip (py_split (CHR ''\<newline>'') m3)
      in py_strip (py_join ''\<newline>'' lines))"

text \<open>
  The body of a document: paragraphs and tables in document order; any other element is
  passed over. \<^verbatim>\<open>_convert_docx\<close>, lines 163-194, on the state
  \<open>(markdown_parts, images, image_counter)\<close>.
\<close>

datatype body_element = Para word_paragraph | Tbl "string list list" | OtherElement

record document =
  doc_body :: "body_element list"
  doc_related_parts :: "string \<rightharpoonup> image_part"

definition docx_element ::
  "env \<Rightarrow> document \<Rightarrow> bool \<Rightarrow> string \<Rightarrow> string \<Rightarrow>
   string list \<times> string list \<times> nat \<Rightarrow> body_element \<Rightarrow> string list \<times> string list \<times> nat" where
  "docx_element E doc extract_images image_format images_dir st element =
     (case st of (markdown_parts, images, image_counter) \<Rightarrow>
        (case element of
           Para para \<Rightarrow>
             (let r = process_paragraph E (doc_related_parts doc) extract_images image_format
                        images_dir image_counter para
              in ((if fst r \<noteq> [] then markdown_parts @ [fst r] else markdown_parts),
                  images @ snd r, image_counter + length (snd r)))
         | Tbl rows \<Rightarrow>
             (let md_table = process_table rows
              in ((if md_table \<noteq> [] then markdown_parts @ [md_table] else markdown_parts),
                  images, image_counter))
         | OtherElement \<Rightarrow> st))"

definition convert_docx ::
  "env \<Rightarrow> document \<Rightarrow> bool \<Rightarrow> string \<Rightarrow> string \<Rightarrow> string \<times> string list" where
  "convert_docx E doc extract_images image_format images_dir =
     (let st = foldl (docx_element E doc extract_images image_format images_dir)
                 ([], [], 0) (doc_body doc)
      in (clean_markdown (py_join ''\<newline>\<newline>'' (fst st)), fst (snd st)))"

section \<open>Spreadsheet adapter: the workbook\<close>

text \<open>
  A worksheet as \<^verbatim>\<open>convert_file\<close> of excel_converter.py reads it: its name, its rows, and
  its embedded images (\<open>None\<close> without the attribute \<^verbatim>\<open>_images\<close>). An embedded image is what
  \<^verbatim>\<open>img._data()\<close> and \<^verbatim>\<open>Image.open\<close> make of it: the decoded image, or the message of the
  exception they raise.
\<close>

record 'p sheet =
  sheet_name :: string
  sheet_rows :: "cell list list"
  sheet_images :: "(string + 'p image) list option"

text \<open>A loop whose body may raise: the first error ends it.\<close>

fun fold_err :: "('s \<Rightarrow> 'a \<Rightarrow> error + 's) \<Rightarrow> 's \<Rightarrow> 'a list \<Rightarrow> error + 's" where
  "fold_err f s [] = Inr s"
| "fold_err f s (x # xs) = (case f s x of Inl e \<Rightarrow> Inl e | Inr s' \<Rightarrow> fold_err f s' xs)"

text \<open>
  Lines 95-122, on the state \<open>(markdown_parts, all_images, image_counter)\<close>. Nothing
  catches an exception here: a failing image ends the conversion.
\<close>

definition excel_image ::
  "'p pil \<Rightarrow> optimizer \<Rightarrow> env \<Rightarrow> string \<Rightarrow> string \<Rightarrow>
   string list \<times> string list \<times> nat \<Rightarrow> string + 'p image \<Rightarrow>
   error + string list \<times> string list \<times> nat" where
  "excel_image P cfg E image_format images_dir st img =
     (case st of (markdown_parts, all_images, image_counter) \<Rightarrow>
        let counter' = image_counter + 1;
            img_name = ''excel_image_'' @ pad3 counter'
        in case img of
             Inl msg \<Rightarrow> Inl (LibraryError msg)
           | Inr pil_img \<Rightarrow>
               (case optimize_image P cfg pil_img None of
                  Inl e \<Rightarrow> Inl e
                | Inr (optimized_data, ext) \<Rightarrow>
                    let img_filename = img_name @ ext;
                        img_path = path_join images_dir img_filename;
                        file_ref = ''\<newline>!['' @ img_name @ ''](images/'' @ img_filename
                                   @ '')\<newline>'';
                        content_type = ''image/'' @ dropWhile (\<lambda>c. c = CHR ''.'') ext;
                        data_ref = ''\<newline>!['' @ img_name @ ''](data:'' @ content_type
                                   @ '';base64,'' @ b64encode E optimized_data @ '')\<newline>''
                    in if file_or_both image_format
                       then (case fs_write_error E img_path of
                               Some msg \<Rightarrow> Inl (LibraryError msg)
                             | None \<Rightarrow>
                                 Inr (markdown_parts @ [file_ref], all_images @ [img_path],
                                      counter'))
                       else if image_format = ''base64''
                         then Inr (markdown_parts @ [data_ref], all_images, counter')
                       else Inr (markdown_parts, all_images, counter')))"

text \<open>Lines 72-124: one sheet.\<close>

definition excel_sheet ::
  "'p pil \<Rightarrow> optimizer \<Rightarrow> env \<Rightarrow> bool \<Rightarrow> string \<Rightarrow> string \<Rightarrow>
   string list \<times> string list \<times> nat \<Rightarrow> 'p sheet \<Rightarrow> error + string list \<times> string list \<times> nat" where
  "excel_sheet P cfg E extract_images image_format images_dir st ws =
     (case st of (markdown_parts, all_images, image_counter) \<Rightarrow>
        let parts1 = markdown_parts @ [''# Sheet: '' @ sheet_name ws @ ''\<newline>''];
            data = sheet_data (sheet_rows ws);
            parts2 = parts1 @ [if data \<noteq> [] then create_markdown_table data
                               else ''*Empty sheet*\<newline>''];
            imgs = (if extract_images
                    then (case sheet_images ws of None \<Rightarrow> [] | Some l \<Rightarrow> l) else [])
        in case fold_err (excel_image P cfg E image_format images_dir)
                  (parts2, all_images, image_counter) imgs of
             Inl e \<Rightarrow> Inl e
           | Inr (parts3, images', counter') \<Rightarrow>
               Inr (parts3 @ [''\<newline>---\<newline>''], images', counter'))"

text \<open>\<^verbatim>\<open>ExcelConverter.convert_file\<close> after the workbook is loaded: the markdown and the
  images (the metadata of the result is left out).\<close>

definition excel_convert ::
  "'p pil \<Rightarrow> optimizer \<Rightarrow> env \<Rightarrow> bool \<Rightarrow> string \<Rightarrow> string \<Rightarrow> 'p sheet list \<Rightarrow>
   error + string \<times> string list" where
  "excel_convert P cfg E extract_images image_format images_dir sheets =
     (case fold_err (excel_sheet P cfg E extract_images image_format images_dir)
             ([], [], 0) sheets of
        Inl e \<Rightarrow> Inl e
      | Inr (markdown_parts, all_images, c) \<Rightarrow>
          Inr (py_join ''\<newline>'' markdown_parts, all_images))"

section \<open>Presentation adapter\<close>

record pptx_run =
  prun_text :: string
  prun_bold :: bool
  prun_italic :: bool
  prun_underline :: bool

record pptx_paragraph =
  ppara_runs :: "pptx_run list"
  ppara_level :: nat

text \<open>
  A shape: its text frame and its table when it has one, and what its \<^verbatim>\<open>shape_type\<close> says.
  A picture carries what \<^verbatim>\<open>shape.image\<close>, \<^verbatim>\<open>image.blob\<close> and \<^verbatim>\<open>Image.open\<close> make of it: the
  decoded image, or the message of the exception they raise.
\<close>

datatype 'p shape =
  Shape (sh_text_frame: "pptx_paragraph list option") (sh_table: "string list list option")
        (sh_kind: "'p shape_kind")
and 'p shape_kind = PICTURE "string + 'p image" | GROUP "'p shape list" | OTHER

record 'p slide =
  slide_layout :: "string option"
  slide_shapes :: "'p shape list"
  slide_notes :: "string option"

text \<open>\<^verbatim>\<open>_extract_text_from_shape\<close>, lines 176-208.\<close>

definition render_prun :: "pptx_run \<Rightarrow> string option" where
  "render_prun r =
     (if prun_text r = [] then None
      else
        let t0 = prun_text r;
            t1 = (if prun_bold r then ''**'' @ t0 @ ''**'' else t0);
            t2 = (if prun_italic r then ''*'' @ t1 @ ''*'' else t1);
            t3 = (if prun_underline r then ''<u>'' @ t2 @ ''</u>'' else t2)
        in Some t3)"

definition render_pptx_paragraph :: "pptx_paragraph \<Rightarrow> string option" where
  "render_pptx_paragraph p =
     (let para_text = concat (List.map_filter render_prun (ppara_runs p))
      in if py_strip para_text \<noteq> []
         then Some (if 0 < ppara_level p
                    then concat (replicate (ppara_level p) ''  '') @ ''- '' @ para_text
                    else para_text)
         else None)"

definition extract_text_from_shape :: "pptx_paragraph list option \<Rightarrow> string" where
  "extract_text_from_shape text_frame =
     (case text_frame of
        None \<Rightarrow> []
      | Some paragraphs \<Rightarrow> py_join ''\<newline>'' (List.map_filter render_pptx_paragraph paragraphs))"

text \<open>\<^verbatim>\<open>_extract_from_group\<close>, lines 210-224: the texts found in a group, nested groups
  included; the pictures of a group are not looked at.\<close>

fun group_text_parts :: "'p shape list \<Rightarrow> string list" where
  "group_text_parts [] = []"
| "group_text_parts (Shape text_frame tbl kind # rest) =
     (case text_frame of
        Some paragraphs \<Rightarrow>
          (if py_strip (extract_text_from_shape (Some paragraphs)) \<noteq> []
           then [extract_text_from_shape (Some paragraphs)] else [])
      | None \<Rightarrow>
          (case kind of
             GROUP sub \<Rightarrow>
               (if py_strip (py_join ''\<newline>'' (group_text_parts sub)) \<noteq> []
                then [py_join ''\<newline>'' (group_text_parts sub)] else [])
           | PICTURE src \<Rightarrow> []
           | OTHER \<Rightarrow> []))
     @ group_text_parts rest"

definition extract_from_group :: "'p shape list \<Rightarrow> string" where
  "extract_from_group shapes = py_join ''\<newline>'' (group_text_parts shapes)"

text \<open>\<^verbatim>\<open>_extract_table\<close>, lines 226-247.\<close>

definition extract_table :: "string list list \<Rightarrow> string" where
  "extract_table rows =
     (if rows = [] then [] else py_join ''\<newline>'' (table_md_rows 0 rows) @ ''\<newline>'')"

text \<open>The note that takes the place of a picture whose extraction raised, line 137.\<close>

definition extraction_failed :: "string \<Rightarrow> string" where
  "extraction_failed msg = ''\<newline>*[Image extraction failed: '' @ msg @ '']*''"

text \<open>
  The picture branch, lines 104-137, on \<open>(slide_text_parts, all_images, image_counter)\<close>.
  The counter is incremented first; whatever raises afterwards, in reading or decoding the
  picture, in the optimizer or in writing the file, is caught and leaves the note.
\<close>

definition pptx_picture ::
  "'p pil \<Rightarrow> optimizer \<Rightarrow> env \<Rightarrow> string \<Rightarrow> string \<Rightarrow> nat \<Rightarrow>
   string list \<times> string list \<times> nat \<Rightarrow> string + 'p image \<Rightarrow> string list \<times> string list \<times> nat" where
  "pptx_picture P cfg E image_format images_dir slide_num st src =
     (case st of (slide_text_parts, all_images, image_counter) \<Rightarrow>
        let counter' = image_counter + 1;
            img_name = ''slide'' @ dec slide_num @ ''_image_'' @ pad3 counter'
        in case src of
             Inl msg \<Rightarrow> (slide_text_parts @ [extraction_failed msg], all_images, counter')
           | Inr pil_img \<Rightarrow>
               (case optimize_image P cfg pil_img None of
                  Inl e \<Rightarrow>
                    (slide_text_parts @ [extraction_failed (error_text e)], all_images, counter')
                | Inr (optimized_data, ext) \<Rightarrow>
                    let img_filename = img_name @ ext;
                        img_path = path_join images_dir img_filename;
                        file_ref = ''\<newline>!['' @ img_name @ ''](images/'' @ img_filename @ '')'';
                        content_type = ''image/'' @ dropWhile (\<lambda>c. c = CHR ''.'') ext;
                        data_ref = ''\<newline>!['' @ img_name @ ''](data:'' @ content_type
                                   @ '';base64,'' @ b64encode E optimized_data @ '')''
                    in if file_or_both image_format
                       then (case fs_write_error E img_path of
                               Some msg \<Rightarrow>
                                 (slide_text_parts @ [extraction_failed msg], all_images, counter')
                             | None \<Rightarrow>
                                 (slide_text_parts @ [file_ref], all_images @ [img_path], counter'))
                       else if image_format = ''base64''
                         then (slide_text_parts @ [data_ref], all_images, counter')
                       else (slide_text_parts, all_images, counter')))"

text \<open>The body of the loop over the shapes of a slide, lines 90-143, on
  \<open>(slide_text_parts, slide_tables, all_images, image_counter)\<close>.\<close>

definition pptx_shape ::
  "'p pil \<Rightarrow> optimizer \<Rightarrow> env \<Rightarrow> bool \<Rightarrow> string \<Rightarrow> string \<Rightarrow> nat \<Rightarrow>
   string list \<times> string list \<times> string list \<times> nat \<Rightarrow> 'p shape \<Rightarrow>
   string list \<times> string list \<times> string list \<times> nat" where
  "pptx_shape P cfg E extract_images image_format images_dir slide_num st sh =
     (case st of (slide_text_parts, slide_tables, all_images, image_counter) \<Rightarrow>
        let parts1 = (case sh_text_frame sh of
                        None \<Rightarrow> slide_text_parts
                      | Some paragraphs \<Rightarrow>
                          if py_strip (extract_text_from_shape (Some paragraphs)) \<noteq> []
                          then slide_text_parts @ [extract_text_from_shape (Some paragraphs)]
                          else slide_text_parts);
            tables1 = (case sh_table sh of
                         None \<Rightarrow> slide_tables
                       | Some rows \<Rightarrow>
                           if extract_table rows \<noteq> [] then slide_tables @ [extract_table rows]
                           else slide_tables);
            pic = (case sh_kind sh of
                     PICTURE src \<Rightarrow>
                       if extract_images
                       then pptx_picture P cfg E image_format images_dir slide_num
                              (parts1, all_images, image_counter) src
                       else (parts1, all_images, image_counter)
                   | GROUP sub \<Rightarrow> (parts1, all_images, image_counter)
                   | OTHER \<Rightarrow> (parts1, all_images, image_counter));
            parts2 = (case sh_kind sh of
                        GROUP sub \<Rightarrow>
                          if py_strip (extract_from_group sub) \<noteq> []
                          then fst pic @ [extract_from_group sub] else fst pic
                      | PICTURE src \<Rightarrow> fst pic
                      | OTHER \<Rightarrow> fst pic)
        in (parts2, tables1, fst (snd pic), snd (snd pic)))"

text \<open>One slide, lines 78-161, on \<open>(markdown_parts, all_images, image_counter)\<close>.\<close>

definition pptx_slide ::
  "'p pil \<Rightarrow> optimizer \<Rightarrow> env \<Rightarrow> bool \<Rightarrow> string \<Rightarrow> string \<Rightarrow> nat \<Rightarrow>
   string list \<times> string list \<times> nat \<Rightarrow> 'p slide \<Rightarrow> string list \<times> string list \<times> nat" where
  "pptx_slide P cfg E extract_images image_format images_dir slide_num st sl =
     (case st of (markdown_parts, all_images, image_counter) \<Rightarrow>
        let parts1 = markdown_parts @ [''\<newline>## Slide '' @ dec slide_num @ ''\<newline>''];
            parts2 = (case slide_layout sl of
                        None \<Rightarrow> parts1
                      | Some layout_name \<Rightarrow> parts1 @ [''*Layout: '' @ layout_name @ ''*\<newline>'']);
            r = foldl (pptx_shape P cfg E extract_images image_format images_dir slide_num)
                  ([], [], all_images, image_counter) (slide_shapes sl);
            slide_text_parts = fst r;
            slide_tables = fst (snd r);
            parts3 = (if slide_text_parts \<noteq> []
                      then parts2 @ [py_join ''\<newline>'' slide_text_parts] else parts2);
            parts4 = (if slide_tables \<noteq> []
                      then parts3 @ [''\<newline>### Tables\<newline>''] @ slide_tables else parts3);
            parts5 = (case slide_notes sl of
                        None \<Rightarrow> parts4
                      | Some notes \<Rightarrow>
                          if py_strip notes \<noteq> []
                          then parts4 @ [''\<newline>**Speaker Notes:**'', ''> '' @ py_strip notes]
                          else parts4)
        in (parts5 @ [''\<newline>---\<newline>''], fst (snd (snd r)), snd (snd (snd r))))"

text \<open>The loop \<^verbatim>\<open>for slide_num, slide in enumerate(prs.slides, 1)\<close>.\<close>

fun pptx_slides ::
  "'p pil \<Rightarrow> optimizer \<Rightarrow> env \<Rightarrow> bool \<Rightarrow> string \<Rightarrow> string \<Rightarrow> nat \<Rightarrow>
   string list \<times> string list \<times> nat \<Rightarrow> 'p slide list \<Rightarrow> string list \<times> string list \<times> nat" where
  "pptx_slides P cfg E extract_images image_format images_dir slide_num st [] = st"
| "pptx_slides P cfg E extract_images image_format images_dir slide_num st (sl # rest) =
     pptx_slides P cfg E extract_images image_format images_dir (slide_num + 1)
       (pptx_slide P cfg E extract_images image_format images_dir slide_num st sl) rest"

text \<open>\<^verbatim>\<open>PowerPointConverter.convert_file\<close> after the presentation is loaded: the markdown
  and the images (the metadata of the result is left out).\<close>

definition pptx_convert ::
  "'p pil \<Rightarrow> optimizer \<Rightarrow> env \<Rightarrow> bool \<Rightarrow> string \<Rightarrow> string \<Rightarrow> string \<Rightarrow> 'p slide list \<Rightarrow>
   string \<times> string list" where
  "pptx_convert P cfg E extract_images image_format images_dir file_name slides =
     (let parts0 = [''# PowerPoint: '' @ file_name @ ''\<newline>'',
                    ''**Total slides: '' @ dec (length slides) @ ''**\<newline>'',
                    ''---\<newline>''];
          r = pptx_slides P cfg E extract_images image_format images_dir 1 (parts0, [], 0) slides
      in (py_join ''\<newline>'' (fst r), fst (snd r)))"

section \<open>Fingerprint, output name and the unified converter\<close>

text \<open>
  \<^verbatim>\<open>_get_file_hash\<close>, lines 661-667. MD5 is the library's: \<open>md5\<close> is a parameter, the
  digest of a byte string as a number of 128 bits. A hasher object is the bytes fed to it
  so far, since \<^verbatim>\<open>update(a); update(b)\<close> is \<^verbatim>\<open>update(a + b)\<close>; \<^verbatim>\<open>hexdigest\<close> writes the
  digest as 32 lower-case hexadecimal digits. The loop reads chunks of 8192 bytes until a
  read returns no byte.
\<close>

definition hex_digit :: "nat \<Rightarrow> char" where
  "hex_digit n = ''0123456789abcdef'' ! n"

definition hexdigest :: "128 word \<Rightarrow> string" where
  "hexdigest h = map (\<lambda>i. hex_digit (unat h div 16 ^ (31 - i) mod 16)) [0..<32]"

function hash_chunks :: "byte list \<Rightarrow> byte list \<Rightarrow> byte list" where
  "hash_chunks hasher rest =
     (if take 8192 rest = [] then hasher
      else hash_chunks (hasher @ take 8192 rest) (drop 8192 rest))"
  by pat_completeness auto
termination
  by (relation "measure (\<lambda>(hasher, rest). length rest)") auto

declare hash_chunks.simps [simp del]

definition get_file_hash :: "(byte list \<Rightarrow> 128 word) \<Rightarrow> byte list \<Rightarrow> string" where
  "get_file_hash md5 content = hexdigest (md5 (hash_chunks [] content))"

text \<open>
  A source file: the directory it lies in, the stem and the suffix of its name (the name
  is the stem followed by the suffix), and its bytes.
\<close>

record source_file =
  src_parent :: string
  src_stem :: string
  src_suffix :: string
  src_content :: "byte list"

text \<open>Lines 608-611: \<^verbatim>\<open>f"{file_path.stem}_{file_hash[:8]}"\<close>, unless the caller names the
  output (\<^verbatim>\<open>None\<close> and the empty string are falsy).\<close>

definition derived_output_name :: "(byte list \<Rightarrow> 128 word) \<Rightarrow> source_file \<Rightarrow> string" where
  "derived_output_name md5 src =
     src_stem src @ ''_'' @ take 8 (get_file_hash md5 (src_content src))"

definition choose_output_name ::
  "(byte list \<Rightarrow> 128 word) \<Rightarrow> source_file \<Rightarrow> string option \<Rightarrow> string" where
  "choose_output_name md5 src output_name =
     (case output_name of
        None \<Rightarrow> derived_output_name md5 src
      | Some n \<Rightarrow> if n = [] then derived_output_name md5 src else n)"

text \<open>\<^verbatim>\<open>get_file_type\<close>, lines 36-42.\<close>

definition get_file_type :: "string \<Rightarrow> string option" where
  "get_file_type sfx =
     (let s = py_lower sfx
      in if s = ''.docx'' \<or> s = ''.doc'' then Some ''word''
         else if s = ''.xlsx'' \<or> s = ''.xls'' then Some ''excel''
         else if s = ''.pptx'' \<or> s = ''.ppt'' then Some ''powerpoint''
         else None)"

text \<open>
  The container readers are external: python-docx, openpyxl and python-pptx give the
  object models, and for a \<^verbatim>\<open>.doc\<close> file mammoth and markdownify give the markdown before
  its clean-up together with the images the handler wrote. Each may raise.
\<close>

record 'p readers =
  read_docx :: "byte list \<Rightarrow> error + document"
  read_doc :: "bool \<Rightarrow> string \<Rightarrow> string \<Rightarrow> byte list \<Rightarrow> error + string \<times> string list"
  read_xlsx :: "byte list \<Rightarrow> error + 'p sheet list"
  read_pptx :: "byte list \<Rightarrow> error + 'p slide list"

record conversion =
  conv_markdown :: string
  conv_images :: "string list"
  conv_output_path :: string
  conv_dir :: string
  conv_file_type :: string

text \<open>
  \<^verbatim>\<open>OfficeConverter.convert_file\<close>, lines 593-659, for a file that exists; the Word branch
  is \<^verbatim>\<open>DocxConverter.convert_file\<close>, which is handed the output name and so lands in the
  same directory. The markdown is written to \<^verbatim>\<open>conversion_dir/output_name.md\<close>.
\<close>

definition convert_file ::
  "'p readers \<Rightarrow> 'p pil \<Rightarrow> optimizer \<Rightarrow> env \<Rightarrow> (byte list \<Rightarrow> 128 word) \<Rightarrow> string \<Rightarrow>
   source_file \<Rightarrow> bool \<Rightarrow> string \<Rightarrow> string option \<Rightarrow> error + conversion" where
  "convert_file R P cfg E md5 output_dir src extract_images image_format output_name =
     (case get_file_type (src_suffix src) of
        None \<Rightarrow>
          Inl (ValueError (''Unsupported file format: '' @ src_suffix src @
                 ''. Supported formats: .docx, .doc, .xlsx, .xls, .pptx, .ppt''))
      | Some file_type \<Rightarrow>
          let name = choose_output_name md5 src output_name;
              conversion_dir = path_join output_dir name;
              images_dir = path_join conversion_dir ''images'';
              md_path = path_join conversion_dir (name @ ''.md'');
              result =
                (if file_type = ''word''
                 then (if py_lower (src_suffix src) = ''.docx''
                       then (case read_docx R (src_content src) of
                               Inl e \<Rightarrow> Inl e
                             | Inr doc \<Rightarrow>
                                 Inr (convert_docx E doc extract_images image_format images_dir))
                       else (case read_doc R extract_images image_format images_dir
                                     (src_content src) of
                               Inl e \<Rightarrow> Inl e
                             | Inr (md, imgs) \<Rightarrow> Inr (clean_markdown md, imgs)))
                 else if file_type = ''excel''
                 then (case read_xlsx R (src_content src) of
                         Inl e \<Rightarrow> Inl e
                       | Inr sheets \<Rightarrow>
                           excel_convert P cfg E extract_images image_format images_dir sheets)
                 else (case read_pptx R (src_content src) of
                         Inl e \<Rightarrow> Inl e
                       | Inr slides \<Rightarrow>
                           Inr (pptx_convert P cfg E extract_images image_format images_dir
                                  (src_stem src @ src_suffix src) slides)))
          in case result of
               Inl e \<Rightarrow> Inl e
             | Inr (markdown, images) \<Rightarrow>
                 (case fs_write_error E md_path of
                    Some msg \<Rightarrow> Inl (LibraryError msg)
                  | None \<Rightarrow>
                      Inr \<lparr>conv_markdown = markdown, conv_images = images,
                           conv_output_path = md_path, conv_dir = conversion_dir,
                           conv_file_type = file_type\<rparr>))"

section \<open>Properties of a markdown string\<close>

text \<open>
  The three properties a normalized markdown string is to have: no three newlines in a
  row, no line that ends in whitespace, nothing to strip at either end.
\<close>

fun contains :: "string \<Rightarrow> string \<Rightarrow> bool" where
  "contains p [] = (p = [])"
| "contains p (c # cs) = (take (length p) (c # cs) = p \<or> contains p cs)"

definition no_triple_newline :: "string \<Rightarrow> bool" where
  "no_triple_newline s = (\<not> contains ''\<newline>\<newline>\<newline>'' s)"

definition lines_trimmed :: "string \<Rightarrow> bool" where
  "lines_trimmed s = list_all (\<lambda>l. py_rstrip l = l) (py_split (CHR ''\<newline>'') s)"

definition outer_trimmed :: "string \<Rightarrow> bool" where
  "outer_trimmed s = (py_strip s = s)"

section \<open>Inline formatting of a run\<close>

text \<open>
  C1 (as stated): a run with non-empty text and all four flags set renders as
  \<^verbatim>\<open>**_<u>~~text~~</u>_**\<close>, strike innermost and bold outermost. The code wraps in the
  opposite order and writes italic as one asterisk, so the run with text
  \<^verbatim>\<open>text\<close> renders as \<^verbatim>\<open>~~<u>***text***</u>~~\<close>.
\<close>

theorem C1_counterexample:
  "render_run \<lparr>run_text = ''text'', run_bold = True, run_italic = True,
      run_underline = True, run_strike = True, run_blips = []\<rparr>
     = Some ''~~<u>***text***</u>~~'' \<and>
   render_run \<lparr>run_text = ''text'', run_bold = True, run_italic = True,
      run_underline = True, run_strike = True, run_blips = []\<rparr>
     \<noteq> Some ''**_<u>~~text~~</u>_**''"
  by (simp add: render_run_def)

text \<open>
  C1 (amended): a run with non-empty text and all four flags set renders as
  \<^verbatim>\<open>~~<u>***text***</u>~~\<close>: the markers are applied innermost to outermost in the
  order bold, italic, underline, strike, with strike outermost and italic written as a
  single asterisk.
\<close>

theorem C1_run_all_flags:
  assumes "run_text r \<noteq> []"
    and "run_bold r" and "run_italic r" and "run_underline r" and "run_strike r"
  shows "render_run r = Some (''~~<u>***'' @ run_text r @ ''***</u>~~'')"
  using assms by (simp add: render_run_def)

theorem C1_run_all_flags_witness:
  "render_run \<lparr>run_text = ''Hi'', run_bold = True, run_italic = True,
      run_underline = True, run_strike = True, run_blips = [Some ''rId4'']\<rparr>
     = Some ''~~<u>***Hi***</u>~~''"
  using C1_run_all_flags [of "\<lparr>run_text = ''Hi'', run_bold = True, run_italic = True,
      run_underline = True, run_strike = True, run_blips = [Some ''rId4'']\<rparr>"]
  by simp

section \<open>Heading levels\<close>




section \<open>Shape of the rendered table\<close>

lemma py_replace_char: "py_replace [a] [b] s = map (\<lambda>c. if c = a then b else c) s"
  by (induction s) auto

lemma unescaped_pipes_map:
  assumes "\<And>c. (f c = CHR ''|'') = (c = CHR ''|'')"
    and "\<And>c. (f c = CHR 0x5C) = (c = CHR 0x5C)"
  shows "unescaped_pipes e (map f s) = unescaped_pipes e s"
  using assms by (induction s arbitrary: e) auto

lemma unescaped_pipes_escape:
  "unescaped_pipes e (py_replace ''|'' [CHR 0x5C, CHR ''|''] s) = 0"
  by (induction s arbitrary: e) auto

lemma unescaped_pipes_cell: "unescaped_pipes e (cell_text c) = 0"
  unfolding cell_text_def py_replace_char
  by (subst unescaped_pipes_map) (auto simp: unescaped_pipes_escape)

lemma unescaped_pipes_append:
  "unescaped_pipes e (s @ t)
     = unescaped_pipes e s + unescaped_pipes (if s = [] then e else last s = CHR 0x5C) t"
  by (induction s arbitrary: e) auto

lemma unescaped_pipes_join:
  assumes "cells \<noteq> []" and "\<forall>c \<in> set cells. \<forall>e. unescaped_pipes e c = 0"
  shows "unescaped_pipes e (py_join '' | '' cells @ '' |'') = length cells"
  using assms
proof (induction cells arbitrary: e)
  case Nil
  then show ?case by simp
next
  case (Cons x xs)
  show ?case
  proof (cases xs)
    case Nil
    with Cons.prems show ?thesis by (simp add: unescaped_pipes_append)
  next
    case (Cons y ys)
    with Cons.prems Cons.IH [of "False"] show ?thesis
      by (simp add: unescaped_pipes_append)
  qed
qed

lemma columns_render_row:
  assumes "cells \<noteq> []" and "\<forall>c \<in> set cells. \<forall>e. unescaped_pipes e c = 0"
  shows "columns (render_row cells) = length cells"
  using unescaped_pipes_join [OF assms] by (simp add: columns_def render_row_def)

lemma newline_free_cell: "CHR ''\<newline>'' \<notin> set (cell_text c)"
  unfolding cell_text_def py_replace_char by auto

lemma newline_free_join:
  assumes "\<forall>c \<in> set cells. CHR ''\<newline>'' \<notin> set c"
  shows "CHR ''\<newline>'' \<notin> set (py_join '' | '' cells)"
  using assms by (induction "'' | ''" cells rule: py_join.induct) auto

lemma newline_free_row:
  assumes "\<forall>c \<in> set cells. CHR ''\<newline>'' \<notin> set c"
  shows "CHR ''\<newline>'' \<notin> set (render_row cells)"
  using newline_free_join [OF assms] by (simp add: render_row_def)

text \<open>Every row that \<open>table_rows\<close> renders comes from a row of the grid, or is the
  separator made for the first one.\<close>

lemma table_rows_cases:
  assumes "line \<in> set (table_rows i rows)"
  shows "\<exists>row \<in> set rows. line = render_row (map cell_text row)
           \<or> line = render_row (replicate (length row) ''---'')"
  using assms by (induction i rows rule: table_rows.induct) (auto simp: Let_def split: if_splits)

lemma length_table_rows:
  "length (table_rows i rows) = length rows + (if i = 0 \<and> rows \<noteq> [] then 1 else 0)"
  by (induction i rows rule: table_rows.induct) (auto simp: Let_def)

lemma length_le_max_cols: "row \<in> set data \<Longrightarrow> length row \<le> max_cols data"
  by (simp add: max_cols_def)

lemma length_normalize_rows:
  "row \<in> set (normalize_rows data) \<Longrightarrow> length row = max_cols data"
  by (auto simp: normalize_rows_def dest: length_le_max_cols)

lemma rendered_row_shape:
  assumes "line \<in> set (table_rows 0 (normalize_rows data))"
  shows "\<exists>cells. length cells = max_cols data \<and> line = render_row cells \<and>
           (\<forall>c \<in> set cells. \<forall>e. unescaped_pipes e c = 0) \<and>
           (\<forall>c \<in> set cells. CHR ''\<newline>'' \<notin> set c)"
proof -
  from table_rows_cases [OF assms] obtain row where row: "row \<in> set (normalize_rows data)"
    and line: "line = render_row (map cell_text row)
                 \<or> line = render_row (replicate (length row) ''---'')"
    by blast
  have len: "length row = max_cols data"
    using row by (rule length_normalize_rows)
  from line show ?thesis
  proof
    assume "line = render_row (map cell_text row)"
    with len show ?thesis
      by (intro exI [of _ "map cell_text row"])
        (auto simp: unescaped_pipes_cell newline_free_cell)
  next
    assume "line = render_row (replicate (length row) ''---'')"
    with len show ?thesis
      by (intro exI [of _ "replicate (length row) ''---''"]) auto
  qed
qed

text \<open>
  C5: for every non-empty grid, jagged or not, the table has one rendered row per grid row
  and the separator after the first; every rendered row is one line, made of exactly
  \<open>max_cols data\<close> cells between the framing pipes, none of which holds an unescaped pipe;
  read back from the text, every rendered row has \<open>max_cols data\<close> columns as soon as the
  grid has a cell at all (a grid whose rows are all empty has no column and its rows are
  the bare frame \<^verbatim>\<open>|  |\<close>). The grid of the example renders as the four lines given.
\<close>

theorem C5_table_shape:
  "(data \<noteq> [] \<longrightarrow>
      create_markdown_table data
        = py_join ''\<newline>'' (table_rows 0 (normalize_rows data)) @ ''\<newline>'' \<and>
      length (table_rows 0 (normalize_rows data)) = length data + 1 \<and>
      (\<forall>line \<in> set (table_rows 0 (normalize_rows data)).
         CHR ''\<newline>'' \<notin> set line \<and>
         (\<exists>cells. length cells = max_cols data \<and> line = render_row cells \<and>
            (\<forall>c \<in> set cells. \<forall>e. unescaped_pipes e c = 0)) \<and>
         (0 < max_cols data \<longrightarrow> columns line = max_cols data))) \<and>
   create_markdown_table
     [[Some ''Name'', Some ''Age''], [Some ''Al'', Some ''30''], [Some ''Bo'', Some []]]
     = ''| Name | Age |\<newline>| --- | --- |\<newline>| Al | 30 |\<newline>| Bo |  |\<newline>''"
proof (intro conjI impI ballI)
  assume "data \<noteq> []"
  then show "create_markdown_table data
      = py_join ''\<newline>'' (table_rows 0 (normalize_rows data)) @ ''\<newline>''"
    by (simp add: create_markdown_table_def)
next
  assume "data \<noteq> []"
  then show "length (table_rows 0 (normalize_rows data)) = length data + 1"
    by (simp add: length_table_rows normalize_rows_def)
next
  fix line
  assume "line \<in> set (table_rows 0 (normalize_rows data))"
  from rendered_row_shape [OF this]
  show "CHR ''\<newline>'' \<notin> set line"
    by (auto dest: newline_free_row)
next
  fix line
  assume "line \<in> set (table_rows 0 (normalize_rows data))"
  from rendered_row_shape [OF this]
  show "\<exists>cells. length cells = max_cols data \<and> line = render_row cells \<and>
          (\<forall>c \<in> set cells. \<forall>e. unescaped_pipes e c = 0)"
    by blast
next
  fix line
  assume "line \<in> set (table_rows 0 (normalize_rows data))" and pos: "0 < max_cols data"
  from rendered_row_shape [OF this(1)] obtain cells where
    "length cells = max_cols data" "line = render_row cells"
    "\<forall>c \<in> set cells. \<forall>e. unescaped_pipes e c = 0"
    by blast
  moreover from this pos have "cells \<noteq> []"
    by auto
  ultimately show "columns line = max_cols data"
    using columns_render_row [of cells] by simp
next
  show "create_markdown_table
     [[Some ''Name'', Some ''Age''], [Some ''Al'', Some ''30''], [Some ''Bo'', Some []]]
     = ''| Name | Age |\<newline>| --- | --- |\<newline>| Al | 30 |\<newline>| Bo |  |\<newline>''"
    by (simp add: create_markdown_table_def normalize_rows_def max_cols_def cell_text_def
        render_row_def)
qed

text \<open>The theorem at a jagged grid with a pipe in a cell: three columns in all four rows.\<close>

theorem C5_table_shape_witness:
  "table_rows 0 (normalize_rows [[Some ''a|b''], [None, Some ''c'', Some ''d''], []])
     = [[CHR ''|'', CHR '' '', CHR ''a'', CHR 0x5C, CHR ''|'', CHR ''b'', CHR '' '',
         CHR ''|'', CHR '' '', CHR '' '', CHR ''|'', CHR '' '', CHR '' '', CHR ''|''],
        ''| --- | --- | --- |'', ''|  | c | d |'', ''|  |  |  |''] \<and>
   list_all (\<lambda>line. columns line = 3)
     (table_rows 0 (normalize_rows [[Some ''a|b''], [None, Some ''c'', Some ''d''], []]))"
proof -
  let ?data = "[[Some ''a|b''], [None, Some ''c'', Some ''d''], []] :: cell list list"
  have m: "max_cols ?data = 3"
    by (simp add: max_cols_def)
  have ne: "?data \<noteq> []"
    by simp
  have rows: "table_rows 0 (normalize_rows ?data)
     = [[CHR ''|'', CHR '' '', CHR ''a'', CHR 0x5C, CHR ''|'', CHR ''b'', CHR '' '',
         CHR ''|'', CHR '' '', CHR '' '', CHR ''|'', CHR '' '', CHR '' '', CHR ''|''],
        ''| --- | --- | --- |'', ''|  | c | d |'', ''|  |  |  |'']"
    by (simp add: normalize_rows_def max_cols_def cell_text_def render_row_def
        eval_nat_numeral)
  from C5_table_shape [of ?data] ne m
  have "\<forall>line \<in> set (table_rows 0 (normalize_rows ?data)). columns line = 3"
    by simp
  then have "list_all (\<lambda>line. columns line = 3) (table_rows 0 (normalize_rows ?data))"
    by (simp add: list_all_iff)
  with rows show ?thesis by simp
qed

section \<open>Blank rows and padding\<close>





section \<open>Photo or graphic\<close>

lemma bit_length_bounds:
  "0 < n \<Longrightarrow> 2 ^ (bit_length n - 1) \<le> n \<and> n < 2 ^ bit_length n"
proof (induction n rule: bit_length.induct)
  case (1 n)
  show ?case
  proof (cases "n div 2 = 0")
    case True
    with "1.prems" have "n = 1" by auto
    then show ?thesis by (simp add: bit_length.simps)
  next
    case False
    with "1.prems" "1.IH"
    have ih: "2 ^ (bit_length (n div 2) - 1) \<le> n div 2" "n div 2 < 2 ^ bit_length (n div 2)"
      by auto
    have bl: "bit_length n = Suc (bit_length (n div 2))"
      using "1.prems" by (subst bit_length.simps) simp
    have pos: "0 < bit_length (n div 2)"
      using False by (subst bit_length.simps) simp
    then have "(2::nat) ^ bit_length (n div 2) = 2 * 2 ^ (bit_length (n div 2) - 1)"
      by (cases "bit_length (n div 2)") auto
    with ih have "2 ^ bit_length (n div 2) \<le> n" "n < 2 * 2 ^ bit_length (n div 2)"
      by linarith+
    with bl show ?thesis by simp
  qed
qed

lemma bit_length_one: "bit_length (Suc 0) = 1"
  by (simp add: bit_length.simps)

lemma bit_length_ge3: "4 \<le> n \<Longrightarrow> 3 \<le> bit_length n"
proof (rule ccontr)
  assume n: "4 \<le> n" and "\<not> 3 \<le> bit_length n"
  then have "bit_length n \<le> 2" by simp
  then have "(2::nat) ^ bit_length n \<le> 2 ^ 2"
    by (intro power_increasing) auto
  moreover from n bit_length_bounds [of n] have "n < 2 ^ bit_length n" by simp
  ultimately show False using n by simp
qed

lemma round_half_even_le:
  assumes "0 < d"
  shows "2 * d * round_half_even n d \<le> 2 * n + d"
proof -
  define q r where "q = n div d" and "r = n mod d"
  have n: "n = d * q + r"
    by (simp add: q_def r_def)
  show ?thesis
  proof (cases "2 * r < d")
    case True
    then have "round_half_even n d = q"
      by (simp add: round_half_even_def Let_def q_def r_def)
    with n show ?thesis by simp
  next
    case False
    then have "round_half_even n d \<le> q + 1"
      by (simp add: round_half_even_def Let_def q_def r_def)
    then have "2 * d * round_half_even n d \<le> 2 * d * (q + 1)"
      by (intro mult_left_mono) auto
    also have "\<dots> = 2 * (d * q) + 2 * d"
      by (simp add: algebra_simps)
    also from False n have "\<dots> \<le> 2 * n + d"
      by simp
    finally show ?thesis .
  qed
qed

text \<open>The quotient \<open>1 / s\<close>: the scaling is by \<open>2 ^ k\<close> with \<open>k\<close> one of two values.\<close>

lemma true_div_one:
  assumes "0 < s"
  shows "\<exists>k. 51 + bit_length s \<le> k \<and> true_div 1 s = (round_half_even (2 ^ k) s, - int k)"
proof -
  define K where "K = 51 + bit_length s"
  have k0: "53 - (int (bit_length 1) - int (bit_length s)) = int (Suc K)"
    by (simp add: bit_length_one K_def)
  have k1: "int (Suc K) - 1 = int K"
    by simp
  have td: "true_div 1 s =
      (if 2 ^ 53 * s \<le> 2 ^ Suc K
       then (round_half_even (2 ^ K) s, - int K)
       else (round_half_even (2 ^ Suc K) s, - int (Suc K)))"
    unfolding true_div_def k0 Let_def scaled_quotient_def k1
    by (simp only: nat_int of_nat_0_le_iff if_True if_False fst_conv snd_conv
        One_nat_def nat.simps mult_1 split: if_splits) auto
  show ?thesis
  proof (cases "2 ^ 53 * s \<le> 2 ^ Suc K")
    case True
    with td have "true_div 1 s = (round_half_even (2 ^ K) s, - int K)"
      by (simp only: if_True)
    then show ?thesis unfolding K_def by blast
  next
    case False
    with td have "true_div 1 s = (round_half_even (2 ^ Suc K) s, - int (Suc K))"
      by (simp only: if_False)
    then show ?thesis unfolding K_def by (intro exI [of _ "Suc (51 + bit_length s)"]) simp
  qed
qed

text \<open>One colour among four or more sampled pixels: the ratio is not above \<^verbatim>\<open>0.3\<close>.\<close>

lemma ratio_of_one_colour:
  assumes "4 \<le> s"
  shows "\<not> float_less (true_div 3 10) (true_div 1 s)"
proof -
  from assms have s: "0 < s" by simp
  from true_div_one [OF s] obtain k where k: "51 + bit_length s \<le> k"
    and td: "true_div 1 s = (round_half_even (2 ^ k) s, - int k)"
    by blast
  from k bit_length_ge3 [OF assms] have k54: "54 \<le> k" by simp
  define N where "N = round_half_even (2 ^ k) s"
  have "2 * s * N \<le> 2 * 2 ^ k + s"
    unfolding N_def using s by (rule round_half_even_le)
  define X :: nat where "X = 2 ^ (k - 2)"
  from k54 have "k = Suc (Suc (k - 2))" by simp
  then have "(2::nat) ^ k = 2 * (2 * 2 ^ (k - 2))"
    by (metis power_Suc)
  then have pk: "(2::nat) ^ k = 4 * X"
    by (simp add: X_def)
  have sX: "4 * X \<le> s * X"
    using assms by (intro mult_right_mono) auto
  have N: "N \<le> X"
  proof (rule ccontr)
    assume "\<not> N \<le> X"
    then have "X + 1 \<le> N" by simp
    then have "s * (X + 1) \<le> s * N"
      by (intro mult_left_mono) auto
    then have "s * X + s \<le> s * N"
      by (simp add: algebra_simps)
    moreover from \<open>2 * s * N \<le> 2 * 2 ^ k + s\<close> pk have "2 * (s * N) \<le> 8 * X + s"
      by simp
    ultimately show False using sX s by linarith
  qed
  have three_tenths: "true_div 3 10 = (5404319552844595, - 54)"
    by (simp add: true_div_def scaled_quotient_def round_half_even_def bit_length.simps
        Let_def)
  have "X = 2 ^ (52 + (k - 54))"
    using k54 by (simp add: X_def)
  also have "\<dots> = 2 ^ 52 * 2 ^ (k - 54)"
    by (rule power_add)
  also have "\<dots> \<le> 5404319552844595 * 2 ^ (k - 54)"
    by (intro mult_right_mono) auto
  finally have "N \<le> 5404319552844595 * 2 ^ (k - 54)"
    using N by simp
  moreover have "min (- 54) (- int k) = - int k"
    using k54 by simp
  moreover have "nat (- 54 - (- int k)) = k - 54"
    using k54 by simp
  ultimately show ?thesis
    unfolding td three_tenths float_less_def N_def [symmetric] Let_def
    by simp
qed

lemma ratio_of_one_colour_small:
  "float_less (true_div 3 10) (true_div 1 1)"
  "float_less (true_div 3 10) (true_div 1 2)"
  "float_less (true_div 3 10) (true_div 1 3)"
  by (simp_all add: true_div_def scaled_quotient_def round_half_even_def bit_length.simps
      Let_def float_less_def)

lemma remdups_replicate_Suc: "remdups (replicate (Suc n) c) = [c]"
  by (induction n) auto

lemma count_list_replicate_same: "count_list (replicate n c) c = n"
  by (induction n) auto

lemma getcolors_single_colour:
  assumes "im_pixels img = replicate n c" and "0 < n"
  shows "getcolors 1000 img = Some [(n, c)]"
proof -
  from assms(2) obtain m where "n = Suc m"
    by (cases n) auto
  then have "remdups (im_pixels img) = [c]"
    using assms(1) remdups_replicate_Suc [of m c] by simp
  then show ?thesis
    by (simp add: getcolors_def Let_def assms(1) count_list_replicate_same)
qed

text \<open>What the classifier computes on an image of one colour, by its sampling budget.\<close>

lemma is_photo_like_single_colour:
  assumes "im_pixels img = replicate (im_width img * im_height img) c"
    and "s = min 100 (im_width img) * min 100 (im_height img)"
  shows "is_photo_like P img \<longleftrightarrow> 0 < s \<and> float_less (true_div 3 10) (true_div 1 s)"
proof -
  define t where "t = (if im_mode img \<noteq> ''RGB'' then convert P ''RGB'' img else img)"
  define c' where "c' = (if im_mode img \<noteq> ''RGB'' then px_convert P (im_mode img) ''RGB'' c else c)"
  have wh: "im_width t = im_width img" "im_height t = im_height img"
    by (simp_all add: t_def convert_def)
  have px: "im_pixels t = replicate (im_width img * im_height img) c'"
    by (simp add: t_def c'_def convert_def assms(1))
  have unfolded: "is_photo_like P img =
     (case getcolors 1000 t of
        None \<Rightarrow> True
      | Some colors \<Rightarrow>
          if 0 < s then float_less (true_div 3 10) (true_div (length colors) s) else False)"
    unfolding is_photo_like_def Let_def t_def [symmetric] wh assms(2) ..
  show ?thesis
  proof (cases "im_width img * im_height img = 0")
    case True
    then have "s = 0"
      using assms(2) by auto
    moreover have "im_pixels t = []"
      unfolding px True by simp
    then have "getcolors 1000 t = Some []"
      by (simp add: getcolors_def)
    ultimately show ?thesis
      unfolding unfolded by simp
  next
    case False
    then have "getcolors 1000 t = Some [(im_width img * im_height img, c')]"
      using px by (intro getcolors_single_colour) simp_all
    then show ?thesis
      unfolding unfolded by simp
  qed
qed

text \<open>
  C2 (as stated): an image of a single colour is classified as graphic whatever its size,
  a 1 x 1 image in particular. For a 1 x 1 image the sampling budget is 1, the ratio of
  distinct colours is 1 / 1, above \<^verbatim>\<open>0.3\<close>, and the classifier answers photo.
\<close>

theorem C2_counterexample:
  "is_photo_like
     \<lparr>px_convert = (\<lambda>from to p. p), px_flatten = (\<lambda>p. p),
      pil_resize = (\<lambda>new_size img. Inr (img\<lparr>im_width := fst new_size,
         im_height := snd new_size, im_pixels := replicate (fst new_size * snd new_size) 0\<rparr>)),
      pil_save = (\<lambda>fmt img. [])\<rparr>
     \<lparr>im_mode = ''RGB'', im_width = 1, im_height = 1, im_pixels = [0 :: nat]\<rparr>"
  by (simp add: is_photo_like_def getcolors_def true_div_def scaled_quotient_def
      round_half_even_def bit_length.simps Let_def float_less_def)

text \<open>
  C2 (amended): for every decoded image of a single colour, the classifier never divides
  by zero, and it answers graphic exactly when the sampling budget
  \<open>min(100, width) * min(100, height)\<close> is 0 or at least 4; for a budget of 1, 2 or 3
  pixels (a 1 x 1 image has budget 1) the ratio of one colour to the budget is above
  \<^verbatim>\<open>0.3\<close> and it answers photo.
\<close>

theorem C2_single_colour:
  assumes "im_pixels img = replicate (im_width img * im_height img) c"
  shows "(4 \<le> min 100 (im_width img) * min 100 (im_height img) \<longrightarrow> \<not> is_photo_like P img) \<and>
         (min 100 (im_width img) * min 100 (im_height img) = 0 \<longrightarrow> \<not> is_photo_like P img) \<and>
         (min 100 (im_width img) * min 100 (im_height img) \<in> {1, 2, 3} \<longrightarrow> is_photo_like P img)"
proof -
  define s where "s = min 100 (im_width img) * min 100 (im_height img)"
  note iff = is_photo_like_single_colour [OF assms s_def, of P]
  have "4 \<le> s \<longrightarrow> \<not> is_photo_like P img"
    unfolding iff using ratio_of_one_colour by blast
  moreover have "s = 0 \<longrightarrow> \<not> is_photo_like P img"
    unfolding iff by simp
  moreover have "s \<in> {1, 2, 3} \<longrightarrow> is_photo_like P img"
    unfolding iff using ratio_of_one_colour_small by auto
  ultimately show ?thesis
    unfolding s_def by blast
qed

theorem C2_single_colour_witness:
  "\<not> is_photo_like
     \<lparr>px_convert = (\<lambda>from to p. p), px_flatten = (\<lambda>p. p),
      pil_resize = (\<lambda>new_size img. Inr (img\<lparr>im_width := fst new_size,
         im_height := snd new_size, im_pixels := replicate (fst new_size * snd new_size) 0\<rparr>)),
      pil_save = (\<lambda>fmt img. [])\<rparr>
     \<lparr>im_mode = ''L'', im_width = 200, im_height = 3,
      im_pixels = replicate (200 * 3) (7 :: nat)\<rparr>"
proof -
  let ?img = "\<lparr>im_mode = ''L'', im_width = 200, im_height = 3,
      im_pixels = replicate (200 * 3) (7 :: nat)\<rparr>"
  have a: "im_pixels ?img = replicate (im_width ?img * im_height ?img) 7"
    by simp
  have b: "4 \<le> min 100 (im_width ?img) * min 100 (im_height ?img)"
    by simp
  from C2_single_colour [OF a] b show ?thesis
    by blast
qed

section \<open>Resizing\<close>

text \<open>
  C3: an image within both bounds is not resized, and a larger one is scaled by the smaller
  of the two ratios with both dimensions rounded down, so that the aspect ratio is off by
  less than a pixel. The second half does not hold in the float arithmetic of the code. For
  a 350 x 4200 image and the default bounds the exact ratio is 1080 / 4200 = 9 / 35 and
  the scaled size is exactly 90 x 1080. The double nearest to 9 / 35 lies below it,
  350 times that double rounds to the double just below 90, and \<^verbatim>\<open>int\<close> cuts it to 89: the
  code asks for 89 x 1080, a full pixel less than the exactly scaled width.
\<close>

theorem C3_resize_350_by_4200:
  "resize_target default_optimizer (350, 4200) = Inr (Some (89, 1080)) \<and>
   true_div 1080 4200 = (4632273902438224, - 54) \<and>
   float_less (true_div 1080 4200) (true_div 1920 350) \<and>
   float_mul (float_of_nat 350) (true_div 1080 4200) = (6333186975989759, - 46) \<and>
   float_mul (float_of_nat 4200) (true_div 1080 4200) = (4749890231992320, - 42) \<and>
   float_val (true_div 1080 4200) < 9 / 35 \<and>
   float_val (float_mul (float_of_nat 350) (true_div 1080 4200)) < 90 \<and>
   350 * 1080 div 4200 = (90 :: nat) \<and>
   resize_target default_optimizer (1920, 1080) = Inr None"
  by (simp add: resize_target_def default_optimizer_def true_div_def scaled_quotient_def
      round_half_even_def bit_length.simps Let_def float_less_def float_min_def
      float_mul_def float_of_nat_def round_mant_def int_of_float_def float_val_def)

section \<open>Extension of the optimized image\<close>

lemma snd_save_as [simp]:
  "snd (save_as_webp P cfg img ht) = ''.webp''"
  "snd (save_as_png P img) = ''.png''"
  "snd (save_as_jpeg P cfg img ht) = ''.jpg''"
  by (simp_all add: save_as_webp_def save_as_png_def save_as_jpeg_def Let_def)









section \<open>Normalization of the returned markdown\<close>

lemma py_rstrip_fixed_iff: "py_rstrip x = x \<longleftrightarrow> x = [] \<or> \<not> is_space (last x)"
proof (cases "x = []")
  case True
  then show ?thesis by (simp add: py_rstrip_def)
next
  case False
  then have rx: "rev x = last x # rev (butlast x)"
    by (metis append_butlast_last_id rev.simps(2) rev_append rev_singleton_conv append_Cons
        append_Nil)
  show ?thesis
  proof (cases "is_space (last x)")
    case True
    have "py_rstrip x = rev (dropWhile is_space (rev (butlast x)))"
      unfolding py_rstrip_def rx using True by simp
    moreover have "length (dropWhile is_space (rev (butlast x))) \<le> length (rev (butlast x))"
      by (rule length_dropWhile_le)
    ultimately have "length (py_rstrip x) \<le> length (rev (butlast x))"
      by simp
    also have "\<dots> < length x"
      using False by simp
    finally have "py_rstrip x \<noteq> x" by auto
    with True False show ?thesis by simp
  next
    case False
    then have "dropWhile is_space (last x # rev (butlast x)) = last x # rev (butlast x)"
      by simp
    then have "dropWhile is_space (rev x) = rev x"
      by (simp only: rx)
    then have "py_rstrip x = x"
      by (simp add: py_rstrip_def)
    with False show ?thesis by simp
  qed
qed

lemma py_rstrip_decomp:
  "\<exists>w. x = py_rstrip x @ w \<and> list_all is_space w"
proof -
  have "rev x = takeWhile is_space (rev x) @ dropWhile is_space (rev x)"
    by simp
  then have "x = rev (dropWhile is_space (rev x)) @ rev (takeWhile is_space (rev x))"
    by (metis rev_append rev_rev_ident)
  moreover have "list_all is_space (rev (takeWhile is_space (rev x)))"
    by (simp add: list_all_iff) (meson set_takeWhileD)
  ultimately show ?thesis
    unfolding py_rstrip_def by blast
qed

lemma py_rstrip_end: "py_rstrip x = [] \<or> \<not> is_space (last (py_rstrip x))"
proof (cases "dropWhile is_space (rev x) = []")
  case True
  then show ?thesis by (simp add: py_rstrip_def)
next
  case False
  then have "\<not> is_space (hd (dropWhile is_space (rev x)))"
    by (rule hd_dropWhile)
  with False show ?thesis
    by (simp add: py_rstrip_def last_rev)
qed

lemma py_rstrip_idem: "py_rstrip (py_rstrip x) = py_rstrip x"
  using py_rstrip_end [of x] by (simp add: py_rstrip_fixed_iff)

lemma py_strip_idem: "py_strip (py_strip x) = py_strip x"
proof (cases "py_strip x = []")
  case True
  have "py_strip [] = []" by (simp add: py_strip_def py_lstrip_def py_rstrip_def)
  with True show ?thesis by simp
next
  case False
  let ?p = "py_rstrip x"
  let ?y = "dropWhile is_space ?p"
  have y: "py_strip x = ?y" by (simp add: py_strip_def py_lstrip_def)
  from False y have ne: "?y \<noteq> []" by simp
  then have pne: "?p \<noteq> []" by auto
  have "?p = takeWhile is_space ?p @ ?y" by simp
  then have "last ?p = last ?y"
    using ne by (metis last_appendR)
  then have "\<not> is_space (last ?y)"
    using py_rstrip_end [of x] pne by simp
  then have r: "py_rstrip ?y = ?y"
    by (simp add: py_rstrip_fixed_iff)
  have "\<not> is_space (hd ?y)"
    using ne by (rule hd_dropWhile)
  then have "dropWhile is_space ?y = ?y"
    using ne by (cases ?y) simp_all
  with r show ?thesis
    unfolding y by (simp add: py_strip_def py_lstrip_def)
qed

lemma py_split_not_Nil: "py_split c s \<noteq> []"
  by (induction s) (auto split: list.splits)

lemma py_split_line: "c \<notin> set a \<Longrightarrow> py_split c (a @ c # b) = a # py_split c b"
  by (induction a) auto

lemma py_split_single: "c \<notin> set a \<Longrightarrow> py_split c a = [a]"
  by (induction a) auto

lemma py_split_join:
  "ls \<noteq> [] \<Longrightarrow> \<forall>l \<in> set ls. c \<notin> set l \<Longrightarrow> py_split c (py_join [c] ls) = ls"
proof (induction ls)
  case Nil
  then show ?case by simp
next
  case (Cons l ls)
  show ?case
  proof (cases ls)
    case Nil
    with Cons.prems show ?thesis by (simp add: py_split_single)
  next
    case (Cons m ms)
    with Cons.IH Cons.prems show ?thesis by (simp add: py_split_line)
  qed
qed

lemma py_split_sep_free: "l \<in> set (py_split c s) \<Longrightarrow> c \<notin> set l"
proof (induction s arbitrary: l)
  case Nil
  then show ?case by simp
next
  case (Cons x xs)
  show ?case
  proof (cases "x = c")
    case True
    with Cons show ?thesis by auto
  next
    case False
    obtain m ms where sp: "py_split c xs = m # ms"
      using py_split_not_Nil [of c xs] by (cases "py_split c xs") auto
    with Cons.prems False have "l = x # m \<or> l \<in> set ms" by auto
    then show ?thesis
    proof
      assume "l = x # m"
      moreover have "c \<notin> set m" using Cons.IH [of m] sp by simp
      ultimately show ?thesis using False by auto
    next
      assume "l \<in> set ms"
      then show ?thesis using Cons.IH [of l] sp by simp
    qed
  qed
qed

lemma set_py_rstrip: "set (py_rstrip l) \<subseteq> set l"
  unfolding py_rstrip_def using set_dropWhileD [of _ is_space "rev l"] by auto

lemma lines_trimmed_tl: "lines_trimmed (c # cs) \<Longrightarrow> lines_trimmed cs"
proof -
  assume a: "lines_trimmed (c # cs)"
  obtain m ms where sp: "py_split (CHR ''\<newline>'') cs = m # ms"
    using py_split_not_Nil [of "CHR ''\<newline>''" cs] by (cases "py_split (CHR ''\<newline>'') cs") auto
  show ?thesis
  proof (cases "c = CHR ''\<newline>''")
    case True
    with a show ?thesis by (simp add: lines_trimmed_def)
  next
    case False
    with a sp have "py_rstrip (c # m) = c # m" and ms: "list_all (\<lambda>l. py_rstrip l = l) ms"
      by (simp_all add: lines_trimmed_def)
    then have "py_rstrip m = m"
      by (cases "m = []") (simp_all add: py_rstrip_fixed_iff)
    with ms sp show ?thesis by (simp add: lines_trimmed_def)
  qed
qed

lemma lines_trimmed_dropWhile: "lines_trimmed s \<Longrightarrow> lines_trimmed (dropWhile f s)"
  by (induction s) (auto dest: lines_trimmed_tl)

lemma lines_trimmed_prefix:
  "lines_trimmed (p @ w) \<Longrightarrow> p = [] \<or> \<not> is_space (last p) \<Longrightarrow> lines_trimmed p"
proof (induction p)
  case Nil
  then show ?case by (simp add: lines_trimmed_def py_rstrip_def)
next
  case (Cons c p)
  show ?case
  proof (cases "p = []")
    case True
    with Cons.prems(2) have "\<not> is_space c" by simp
    then have "c \<noteq> CHR ''\<newline>''" by (auto simp: is_space_def)
    with True \<open>\<not> is_space c\<close> show ?thesis
      by (simp add: lines_trimmed_def py_rstrip_fixed_iff)
  next
    case False
    with Cons.prems(2) have "\<not> is_space (last p)" by simp
    moreover have "lines_trimmed (p @ w)"
      using Cons.prems(1) by (auto dest: lines_trimmed_tl)
    ultimately have IH: "lines_trimmed p" using Cons.IH by simp
    obtain m ms where sp: "py_split (CHR ''\<newline>'') p = m # ms"
      using py_split_not_Nil [of "CHR ''\<newline>''" p] by (cases "py_split (CHR ''\<newline>'') p") auto
    show ?thesis
    proof (cases "c = CHR ''\<newline>''")
      case True
      with IH show ?thesis by (simp add: lines_trimmed_def py_rstrip_def)
    next
      case cn: False
      have "py_rstrip (c # m) = c # m"
      proof (cases "m = []")
        case mne: False
        from IH sp have "py_rstrip m = m" by (simp add: lines_trimmed_def)
        with mne show ?thesis by (simp add: py_rstrip_fixed_iff)
      next
        case True
        with sp False obtain q where p: "p = CHR ''\<newline>'' # q"
          by (cases p) (auto split: if_splits list.splits)
        have "py_split (CHR ''\<newline>'') ((c # p) @ w)
                = [c] # py_split (CHR ''\<newline>'') (q @ w)"
          using py_split_line [of "CHR ''\<newline>''" "[c]" "q @ w"] cn by (simp add: p)
        with Cons.prems(1) have "py_rstrip [c] = [c]"
          by (simp add: lines_trimmed_def)
        with True show ?thesis by simp
      qed
      with IH sp cn show ?thesis by (simp add: lines_trimmed_def)
    qed
  qed
qed

lemma lines_trimmed_py_strip: "lines_trimmed s \<Longrightarrow> lines_trimmed (py_strip s)"
proof -
  assume a: "lines_trimmed s"
  obtain w where "s = py_rstrip s @ w"
    using py_rstrip_decomp [of s] by blast
  with a have "lines_trimmed (py_rstrip s @ w)" by simp
  then have "lines_trimmed (py_rstrip s)"
    using py_rstrip_end [of s] by (rule lines_trimmed_prefix)
  then show ?thesis
    unfolding py_strip_def py_lstrip_def by (rule lines_trimmed_dropWhile)
qed

lemma lines_trimmed_join_rstrip:
  "lines_trimmed (py_join ''\<newline>'' (map py_rstrip (py_split (CHR ''\<newline>'') s)))"
proof -
  let ?ls = "map py_rstrip (py_split (CHR ''\<newline>'') s)"
  have ne: "?ls \<noteq> []" by (simp add: py_split_not_Nil)
  have free: "\<forall>l \<in> set ?ls. CHR ''\<newline>'' \<notin> set l"
    using py_split_sep_free [of _ "CHR ''\<newline>''" s] set_py_rstrip by fastforce
  have "py_split (CHR ''\<newline>'') (py_join [CHR ''\<newline>''] ?ls) = ?ls"
    using ne free by (rule py_split_join)
  then show ?thesis
    by (simp add: lines_trimmed_def list_all_iff py_rstrip_idem)
qed

lemma clean_markdown_trimmed:
  "lines_trimmed (clean_markdown s)" "outer_trimmed (clean_markdown s)"
  by (simp_all add: clean_markdown_def Let_def lines_trimmed_py_strip
      lines_trimmed_join_rstrip outer_trimmed_def py_strip_idem)

text \<open>
  C9 (as stated): the markdown of every conversion holds no three newlines in a row, no
  line that ends in whitespace, and no whitespace at either end. The clean-up belongs to
  the Word path alone. A workbook with the one sheet \<^verbatim>\<open>S\<close> and the one cell \<^verbatim>\<open>a\<close> gives a
  markdown with three newlines in a row that ends in a newline. In the Word path the
  newlines are collapsed before the lines are trimmed: a paragraph whose run has two
  lines of one space between \<^verbatim>\<open>a\<close> and \<^verbatim>\<open>b\<close> leaves three newlines in a row.
\<close>

theorem C9_counterexample:
  "excel_convert
     \<lparr>px_convert = (\<lambda>from to p. p), px_flatten = (\<lambda>p. p),
      pil_resize = (\<lambda>new_size img. Inr (img\<lparr>im_width := fst new_size,
         im_height := snd new_size, im_pixels := replicate (fst new_size * snd new_size) 0\<rparr>)),
      pil_save = (\<lambda>fmt img. [])\<rparr>
     default_optimizer
     \<lparr>fs_write_error = (\<lambda>path. None), b64encode = (\<lambda>data. [])\<rparr>
     True ''file'' ''out/images''
     [\<lparr>sheet_name = ''S'', sheet_rows = [[Some ''a'']],
       sheet_images = (None :: (string + nat image) list option)\<rparr>]
     = Inr (''# Sheet: S\<newline>\<newline>| a |\<newline>| --- |\<newline>\<newline>\<newline>---\<newline>'', []) \<and>
   \<not> no_triple_newline ''# Sheet: S\<newline>\<newline>| a |\<newline>| --- |\<newline>\<newline>\<newline>---\<newline>'' \<and>
   \<not> outer_trimmed ''# Sheet: S\<newline>\<newline>| a |\<newline>| --- |\<newline>\<newline>\<newline>---\<newline>'' \<and>
   fst (convert_docx
     \<lparr>fs_write_error = (\<lambda>path. None), b64encode = (\<lambda>data. [])\<rparr>
     \<lparr>doc_body = [Para \<lparr>para_style = None,
         para_runs = [\<lparr>run_text = ''a\<newline> \<newline> \<newline>b'', run_bold = False, run_italic = False,
                       run_underline = False, run_strike = False, run_blips = []\<rparr>],
         para_numPr = None\<rparr>],
       doc_related_parts = Map.empty\<rparr>
     True ''file'' ''out/images'') = ''a\<newline>\<newline>\<newline>b'' \<and>
   \<not> no_triple_newline ''a\<newline>\<newline>\<newline>b''"
  by (simp add: excel_convert_def excel_sheet_def sheet_data_def row_kept_def
      create_markdown_table_def normalize_rows_def max_cols_def render_row_def cell_text_def
      py_strip_def py_lstrip_def py_rstrip_def is_space_def no_triple_newline_def
      outer_trimmed_def convert_docx_def docx_element_def process_paragraph_def
      render_run_def heading_level_def startswith_def apply_heading_def apply_list_def
      clean_markdown_def ws_through_newline_def List.map_filter_def Let_def)

text \<open>
  C9 (amended): for every conversion of a Word document, the returned markdown has no
  line that ends in whitespace and no whitespace at its start or its end. This holds for
  the clean-up \<^verbatim>\<open>_clean_markdown\<close> on every string, for the markdown of \<^verbatim>\<open>_convert_docx\<close>,
  and for every result of the unified converter whose file type is \<^verbatim>\<open>word\<close>, whatever the
  readers return. Nothing is said of runs of newlines, and nothing of workbooks and
  presentations, whose markdown is returned as it was joined.
\<close>

theorem C9_word_markdown_trimmed:
  "lines_trimmed (clean_markdown s) \<and> outer_trimmed (clean_markdown s) \<and>
   lines_trimmed (fst (convert_docx E doc extract_images image_format images_dir)) \<and>
   outer_trimmed (fst (convert_docx E doc extract_images image_format images_dir)) \<and>
   (\<forall>c. convert_file R P cfg E md5 output_dir src extract_images image_format output_name
           = Inr c \<and> conv_file_type c = ''word''
         \<longrightarrow> lines_trimmed (conv_markdown c) \<and> outer_trimmed (conv_markdown c))"
proof -
  have "lines_trimmed (conv_markdown c) \<and> outer_trimmed (conv_markdown c)"
    if r: "convert_file R P cfg E md5 output_dir src extract_images image_format output_name
             = Inr c"
      and w: "conv_file_type c = ''word''" for c
  proof -
    obtain ft where ft: "get_file_type (src_suffix src) = Some ft"
      using r by (cases "get_file_type (src_suffix src)") (simp_all add: convert_file_def)
    have "conv_file_type c = ft"
      using r ft
      by (auto simp: convert_file_def Let_def split: sum.splits option.splits prod.splits
          if_splits)
    with w have ftw: "ft = ''word''" by simp
    have "\<exists>t. conv_markdown c = clean_markdown t"
      using r ft ftw
      by (auto simp: convert_file_def Let_def convert_docx_def
          split: sum.splits option.splits prod.splits if_splits)
    then show ?thesis
      using clean_markdown_trimmed by auto
  qed
  then show ?thesis
    by (simp add: convert_docx_def Let_def clean_markdown_trimmed)
qed

theorem C9_word_markdown_trimmed_witness:
  "convert_file
     \<lparr>read_docx = (\<lambda>content. Inr \<lparr>doc_body = [Para \<lparr>para_style = None,
          para_runs = [\<lparr>run_text = '' Hello \<newline>'', run_bold = False, run_italic = False,
                        run_underline = False, run_strike = False, run_blips = []\<rparr>],
          para_numPr = None\<rparr>],
        doc_related_parts = Map.empty\<rparr>),
      read_doc = (\<lambda>extract_images image_format images_dir content. Inr ([], [])),
      read_xlsx = (\<lambda>content. Inr []), read_pptx = (\<lambda>content. Inr [])\<rparr>
     \<lparr>px_convert = (\<lambda>from to p. p), px_flatten = (\<lambda>p. p),
      pil_resize = (\<lambda>new_size img. Inr (img\<lparr>im_width := fst new_size,
         im_height := snd new_size, im_pixels := replicate (fst new_size * snd new_size) (0 :: nat)\<rparr>)),
      pil_save = (\<lambda>fmt img. [])\<rparr>
     default_optimizer
     \<lparr>fs_write_error = (\<lambda>path. None), b64encode = (\<lambda>data. [])\<rparr>
     (\<lambda>content. 0) ''out''
     \<lparr>src_parent = ''in'', src_stem = ''a'', src_suffix = ''.docx'', src_content = []\<rparr>
     True ''file'' (Some ''n'')
   = Inr \<lparr>conv_markdown = ''Hello'', conv_images = [], conv_output_path = ''out/n/n.md'',
          conv_dir = ''out/n'', conv_file_type = ''word''\<rparr> \<and>
   lines_trimmed ''Hello'' \<and> outer_trimmed ''Hello''"
proof -
  let ?R = "\<lparr>read_docx = (\<lambda>content. Inr \<lparr>doc_body = [Para \<lparr>para_style = None,
          para_runs = [\<lparr>run_text = '' Hello \<newline>'', run_bold = False, run_italic = False,
                        run_underline = False, run_strike = False, run_blips = []\<rparr>],
          para_numPr = None\<rparr>],
        doc_related_parts = Map.empty\<rparr>),
      read_doc = (\<lambda>extract_images image_format images_dir content. Inr ([], [])),
      read_xlsx = (\<lambda>content. Inr []), read_pptx = (\<lambda>content. Inr [])\<rparr> :: nat readers"
  let ?P = "\<lparr>px_convert = (\<lambda>from to p. p), px_flatten = (\<lambda>p. p),
      pil_resize = (\<lambda>new_size img. Inr (img\<lparr>im_width := fst new_size,
         im_height := snd new_size, im_pixels := replicate (fst new_size * snd new_size) 0\<rparr>)),
      pil_save = (\<lambda>fmt img. [])\<rparr> :: nat pil"
  let ?E = "\<lparr>fs_write_error = (\<lambda>path. None), b64encode = (\<lambda>data. [])\<rparr>"
  let ?src = "\<lparr>src_parent = ''in'', src_stem = ''a'', src_suffix = ''.docx'',
                src_content = []\<rparr>"
  let ?c = "\<lparr>conv_markdown = ''Hello'', conv_images = [], conv_output_path = ''out/n/n.md'',
          conv_dir = ''out/n'', conv_file_type = ''word''\<rparr>"
  have lower: "py_lower ''.docx'' = ''.docx''"
    by (simp add: py_lower_def lower_char_def)
  have ret: "convert_file ?R ?P default_optimizer ?E (\<lambda>content. 0) ''out'' ?src
               True ''file'' (Some ''n'') = Inr ?c"
    by (simp add: convert_file_def get_file_type_def lower choose_output_name_def
        path_join_def convert_docx_def docx_element_def process_paragraph_def
        render_run_def heading_level_def startswith_def apply_heading_def apply_list_def
        clean_markdown_def ws_through_newline_def List.map_filter_def Let_def
        py_strip_def py_lstrip_def py_rstrip_def is_space_def)
  from C9_word_markdown_trimmed [of "[]" ?E "\<lparr>doc_body = [], doc_related_parts = Map.empty\<rparr>"
      True "''file''" "''out''" ?R ?P default_optimizer "\<lambda>content. 0" "''out''" ?src
      "Some ''n''"] ret
  have "lines_trimmed (conv_markdown ?c) \<and> outer_trimmed (conv_markdown ?c)"
    by simp
  with ret show ?thesis by simp
qed

end
